theory Spec2Isabelle
  imports Main "HOL-Library.Word"
begin

section \<open>Data model\<close>

text \<open>
  Python \<^verbatim>\<open>bytes\<close> values are lists of 8-bit words. Register indices are Python
  integers (the log yields unsigned 32-bit values, the command line yields whatever
  \<^verbatim>\<open>int()\<close> accepts), hence \<^typ>\<open>int\<close>. A PCR bank is a Python dict from index to
  digest, hence a map; reading a key that is absent raises \<^verbatim>\<open>KeyError\<close>.
\<close>

type_synonym byte = "8 word"
type_synonym bytes = "byte list"
type_synonym pcrs = "int \<rightharpoonup> bytes"

text \<open>The exceptions that can travel through \<^verbatim>\<open>main\<close>. All are subclasses of
  Python's \<^verbatim>\<open>Exception\<close>.\<close>

datatype exn = KeyError | FileNotFoundError | ValueError | UnicodeDecodeError | OSError
  | OtherException string

text \<open>Modelled from the spec: the enumeration \<^verbatim>\<open>TpmEventType\<close> of module
  \<^verbatim>\<open>tpm_constants\<close>, which is not among the sources. Section 3 and the design notes
  of the specification give it as the closed variant below; only the three named kinds
  are tested by the code.\<close>

datatype TpmEventType = EFI_BOOT_SERVICES_APPLICATION | IPL | NO_ACTION | Other nat

text \<open>A log entry is a dict with the keys \<^verbatim>\<open>pcr_idx\<close>, \<^verbatim>\<open>event_type\<close>,
  \<^verbatim>\<open>event_data\<close> and, optionally, \<^verbatim>\<open>pcr_extend_value\<close>.\<close>

record event =
  pcr_idx :: int
  event_type :: TpmEventType
  event_data :: bytes
  pcr_extend_value :: "bytes option"

text \<open>The command-line arguments, as \<^verbatim>\<open>argparse\<close> delivers them.\<close>

record args =
  pcr_list :: "string option"
  output_arg :: "string option"
  compare :: bool
  verbose :: bool
  log_path :: "string option"

text \<open>
  The collaborators that \<^verbatim>\<open>main\<close> imports or calls and that lie outside the two
  source files: the hash function of \<^verbatim>\<open>hashlib\<close>, the log decoder, the device-path
  and image-hash resolvers, the loader predictor, the live register reader, and the
  Python built-ins \<^verbatim>\<open>int\<close>, \<^verbatim>\<open>bytes.decode\<close> and \<^verbatim>\<open>open\<close>. Each is a parameter; one
  that can raise returns a sum with the exception on the left. The log is taken as
  the list of entries that \<^verbatim>\<open>enum_log_entries\<close> yields. \<^verbatim>\<open>parse_efi_bsa_event\<close>
  stands for the call together with the lookup of \<^verbatim>\<open>device_path_vec\<close> in its result.
\<close>

record 'dp env =
  sha1 :: "bytes \<Rightarrow> bytes"
  enum_log_entries :: "string option \<Rightarrow> event list"
  parse_efi_bsa_event :: "bytes \<Rightarrow> exn + 'dp"
  device_path_to_unix_path :: "'dp \<Rightarrow> exn + string option"
  hash_pecoff :: "string option \<Rightarrow> string \<Rightarrow> exn + bytes"
  loader_get_next_cmdline :: "string option \<Rightarrow> exn + string"
  loader_encode_pcr8 :: "string \<Rightarrow> exn + bytes"
  decode_utf16le :: "bytes \<Rightarrow> exn + string"
  read_current_pcrs :: "int list \<Rightarrow> exn + pcrs"
  read_current_pcr :: "int \<Rightarrow> exn + bytes"
  py_int :: "string \<Rightarrow> exn + int"
  open_wb :: "string \<Rightarrow> exn option"

text \<open>What the program prints, one constructor for each \<^verbatim>\<open>print\<close> statement (or block
  of consecutive ones), carrying the values that are formatted. Lines sent to the
  standard error stream are the constructors named \<open>Stderr...\<close>.\<close>

datatype out_line =
    ShowLogEntry event
  | SkipNoSha1Bank
  | SkipVirtualPcr
  | PrintException exn
  | CoffHash "string option" bytes bytes bytes
  | GuessedNextPcr bytes
  | NoLinuxPath
  | StderrUnusualBoot
  | SystemdCmdline string string
  | NotTouchingIPL
  | AfterEvent int bytes bytes
  | CompareHeader
  | CompareColumns
  | CompareRow int bytes bytes bool
  | FinalHeader
  | FinalColumns
  | FinalRow int bytes bytes
  | StderrFatalErrors

text \<open>The local variables of \<^verbatim>\<open>main\<close> that change during the run, together with
  the two effects on the outside: the lines printed so far and the file opened for
  writing with the bytes written to it.\<close>

record st =
  this_pcrs :: pcrs
  next_pcrs :: pcrs
  last_efi_binary :: "string option"
  errors :: int
  out :: "out_line list"
  written :: "(string \<times> bytes) option"

text \<open>How a piece of code ends: it falls through to the next statement, executes
  \<^verbatim>\<open>continue\<close>, calls \<^verbatim>\<open>exit\<close>, or raises an exception that nothing catches.\<close>

datatype ctl = Go | ContinueLoop | ExitWith int | Raise exn

text \<open>How the process ends, and the exit status the operating system sees: an
  uncaught exception prints a traceback and gives status 1.\<close>

datatype outcome = Returned | Exited int | Uncaught exn

fun exit_status :: "outcome \<Rightarrow> int" where
  "exit_status Returned = 0"
| "exit_status (Exited n) = n"
| "exit_status (Uncaught e) = 1"

section \<open>Constants and helpers\<close>

text \<open>\<^verbatim>\<open>src/lib/__init__.py\<close> defines both constants itself, lines 20 and 21
  (\<^verbatim>\<open>hashlib.sha1().digest_size\<close> is 20); \<^verbatim>\<open>src/tpm_futurepcr/__init__.py\<close> imports
  them.\<close>

definition NUM_PCRS :: nat where
  "NUM_PCRS = 24"

definition PCR_SIZE :: nat where
  "PCR_SIZE = 20"

definition VIRTUAL_PCR :: int where
  "VIRTUAL_PCR = 0xFFFFFFFF"

text \<open>Python truthiness of an optional string: \<^verbatim>\<open>None\<close> and the empty string are
  false.\<close>

fun truthy :: "string option \<Rightarrow> bool" where
  "truthy None = False"
| "truthy (Some s) = (s \<noteq> [])"

definition emit :: "out_line \<Rightarrow> st \<Rightarrow> st" where
  "emit l s = s\<lparr>out := out s @ [l]\<rparr>"

text \<open>\<^verbatim>\<open>str.split(",")\<close>: the fields between commas, empty ones included.\<close>

fun split_comma :: "string \<Rightarrow> string list" where
  "split_comma [] = [[]]"
| "split_comma (c # cs) =
     (if c = CHR '','' then [] # split_comma cs
      else (case split_comma cs of
              [] \<Rightarrow> [[c]]
            | w # ws \<Rightarrow> (c # w) # ws))"

text \<open>A list comprehension over a function that can raise: the first exception
  ends it.\<close>

fun map_raise :: "('a \<Rightarrow> exn + 'b) \<Rightarrow> 'a list \<Rightarrow> exn + 'b list" where
  "map_raise f [] = Inr []"
| "map_raise f (x # xs) =
     (case f x of
        Inl e \<Rightarrow> Inl e
      | Inr y \<Rightarrow> (case map_raise f xs of Inl e \<Rightarrow> Inl e | Inr ys \<Rightarrow> Inr (y # ys)))"

text \<open>Modelled from the spec: \<^verbatim>\<open>init_empty_pcrs\<close> of module \<^verbatim>\<open>util\<close>, which is not
  among the sources. Section 3 (Reset Values): all 24 indices are populated, the
  indices 17 to 22 with 20 bytes of 0xFF and the others with 20 bytes of 0x00. The
  same initialisation is written inline in \<^verbatim>\<open>src/lib/__init__.py\<close>, lines 22 and 23.\<close>

definition init_empty_pcrs :: pcrs where
  "init_empty_pcrs =
     map_of (map (\<lambda>x. (int x, replicate PCR_SIZE (0::byte))) [0..<NUM_PCRS])
       ++ map_of (map (\<lambda>x. (x, replicate PCR_SIZE (0xFF::byte))) [17, 18, 19, 20, 21, 22])"

text \<open>Modelled from the spec: \<^verbatim>\<open>extend_pcr_with_hash\<close> of module \<^verbatim>\<open>util\<close>, which
  is not among the sources. Section 4.1 and the glossary: the new value is
  \<open>H(old || value)\<close>. The same expression is written inline in
  \<^verbatim>\<open>src/lib/__init__.py\<close>, lines 48 and 49.\<close>

definition extend_pcr_with_hash :: "(bytes \<Rightarrow> bytes) \<Rightarrow> bytes \<Rightarrow> bytes \<Rightarrow> bytes" where
  "extend_pcr_with_hash H pcr_value extend_value = H (pcr_value @ extend_value)"

text \<open>Modelled from the spec: \<^verbatim>\<open>hash_bytes\<close> of module \<^verbatim>\<open>util\<close>, which is not among
  the sources. Section 4.2, step 4: the encoded command line is hashed with the
  legacy digest function.\<close>

definition hash_bytes :: "(bytes \<Rightarrow> bytes) \<Rightarrow> bytes \<Rightarrow> bytes" where
  "hash_bytes H buf = H buf"

text \<open>The statement \<^verbatim>\<open>pcrs[idx] = extend_pcr_with_hash(pcrs[idx], value)\<close>: the read
  raises \<^verbatim>\<open>KeyError\<close> when the bank has no such index.\<close>

definition extend :: "(bytes \<Rightarrow> bytes) \<Rightarrow> pcrs \<Rightarrow> int \<Rightarrow> bytes \<Rightarrow> exn + pcrs" where
  "extend H pcrs idx val =
     (case pcrs idx of
        None \<Rightarrow> Inl KeyError
      | Some old \<Rightarrow> Inr (pcrs(idx \<mapsto> extend_pcr_with_hash H old val)))"

section \<open>The program \<^verbatim>\<open>src/tpm_futurepcr/__init__.py\<close>\<close>

text \<open>Lines 27 to 32: the requested indices and whether every register is traced.
  \<^verbatim>\<open>int()\<close> raises \<^verbatim>\<open>ValueError\<close> on a field it cannot read.\<close>

definition wanted_pcrs_of ::
  "'dp env \<Rightarrow> args \<Rightarrow> exn + (bool \<times> int list)" where
  "wanted_pcrs_of E a =
     (if truthy (pcr_list a) then
        (case map_raise (py_int E) (split_comma (the (pcr_list a))) of
           Inl e \<Rightarrow> Inl e
         | Inr wanted_pcrs \<Rightarrow> Inr (False, wanted_pcrs))
      else Inr (True, map int [0..<NUM_PCRS]))"

text \<open>Lines 34 to 37: the state before the first entry.\<close>

definition init_st :: st where
  "init_st = \<lparr>this_pcrs = init_empty_pcrs, next_pcrs = init_empty_pcrs,
     last_efi_binary = None, errors = 0, out = [], written = None\<rparr>"

text \<open>Lines 57 to 83: the block for an \<^verbatim>\<open>EFI_BOOT_SERVICES_APPLICATION\<close> entry. It
  returns how the block ends, the state, and \<^verbatim>\<open>next_extend_value\<close>. An exception of
  the device-path resolver is caught, printed, and sets \<^verbatim>\<open>errors = 1\<close>; exceptions of
  the payload parser and of the image hasher are not caught.\<close>

definition bsa_block ::
  "'dp env \<Rightarrow> args \<Rightarrow> bool \<Rightarrow> st \<Rightarrow> event \<Rightarrow> bytes \<Rightarrow> bytes \<Rightarrow> ctl \<times> st \<times> bytes" where
  "bsa_block E a verbose_pcr s ev this_extend_value next_extend_value =
     (if event_type ev = EFI_BOOT_SERVICES_APPLICATION then
        (case parse_efi_bsa_event E (event_data ev) of
           Inl x \<Rightarrow> (Raise x, s, next_extend_value)
         | Inr device_path_vec \<Rightarrow>
             (let (s1, unix_path) =
                    (case device_path_to_unix_path E device_path_vec of
                       Inl e \<Rightarrow> ((emit (PrintException e) s)\<lparr>errors := 1\<rparr>, None)
                     | Inr p \<Rightarrow> (s, p))
              in if truthy unix_path then
                   (case hash_pecoff E unix_path ''sha1'' of
                      Inl x \<Rightarrow> (Raise x, s1, next_extend_value)
                    | Inr file_hash \<Rightarrow>
                        (let s2 = s1\<lparr>last_efi_binary := unix_path\<rparr>;
                             s3 = (if verbose_pcr
                                   then emit (CoffHash unix_path file_hash
                                                this_extend_value file_hash) s2
                                   else s2)
                         in (Go, s3, file_hash)))
                 else if verbose a then
                   (ContinueLoop, emit NoLinuxPath s1, next_extend_value)
                 else
                   (ExitWith 1, emit StderrUnusualBoot s1, next_extend_value)))
      else (Go, s, next_extend_value))"

text \<open>Lines 87 to 94: the body of the \<^verbatim>\<open>try\<close> statement of the \<^verbatim>\<open>IPL\<close> block. It
  returns the exception raised, if any, or the new \<^verbatim>\<open>next_extend_value\<close>, and the
  state with what was printed before.\<close>

definition ipl_try ::
  "'dp env \<Rightarrow> args \<Rightarrow> st \<Rightarrow> event \<Rightarrow> (exn + bytes) \<times> st" where
  "ipl_try E a s ev =
     (case loader_get_next_cmdline E (last_efi_binary s) of
        Inl x \<Rightarrow> (Inl x, s)
      | Inr cmdline \<Rightarrow>
          (case (if verbose a then
                   (case decode_utf16le E (butlast (event_data ev)) of
                      Inl x \<Rightarrow> Inl x
                    | Inr old_cmdline \<Rightarrow> Inr (emit (SystemdCmdline old_cmdline cmdline) s))
                 else Inr s) of
             Inl x \<Rightarrow> (Inl x, s)
           | Inr s1 \<Rightarrow>
               (case loader_encode_pcr8 E cmdline of
                  Inl x \<Rightarrow> (Inl x, s1)
                | Inr encoded \<Rightarrow> (Inr (hash_bytes (sha1 E) encoded), s1))))"

text \<open>Lines 85 to 99: the \<^verbatim>\<open>IPL\<close> block. Only \<^verbatim>\<open>FileNotFoundError\<close> is caught.\<close>

definition ipl_block ::
  "'dp env \<Rightarrow> args \<Rightarrow> int list \<Rightarrow> st \<Rightarrow> event \<Rightarrow> bytes \<Rightarrow> ctl \<times> st \<times> bytes" where
  "ipl_block E a wanted_pcrs s ev next_extend_value =
     (if event_type ev = IPL \<and> pcr_idx ev \<in> set wanted_pcrs then
        (case ipl_try E a s ev of
           (Inr v, s1) \<Rightarrow> (Go, s1, v)
         | (Inl FileNotFoundError, s1) \<Rightarrow>
             (Go, (if verbose a then emit NotTouchingIPL s1 else s1), next_extend_value)
         | (Inl x, s1) \<Rightarrow> (Raise x, s1, next_extend_value))
      else (Go, s, next_extend_value))"

text \<open>Lines 101 to 108: the fold of both chains and the trace of the result. Each
  read of a bank at an index it does not have raises \<^verbatim>\<open>KeyError\<close>.\<close>

definition fold_block ::
  "'dp env \<Rightarrow> bool \<Rightarrow> st \<Rightarrow> event \<Rightarrow> bytes \<Rightarrow> bytes \<Rightarrow> ctl \<times> st" where
  "fold_block E verbose_pcr s ev this_extend_value next_extend_value =
     (let idx = pcr_idx ev;
          r = (if event_type ev \<noteq> NO_ACTION then
                 (case extend (sha1 E) (this_pcrs s) idx this_extend_value of
                    Inl x \<Rightarrow> (Raise x, s)
                  | Inr t \<Rightarrow>
                      (case extend (sha1 E) (next_pcrs s) idx next_extend_value of
                         Inl x \<Rightarrow> (Raise x, s\<lparr>this_pcrs := t\<rparr>)
                       | Inr n \<Rightarrow> (Go, s\<lparr>this_pcrs := t, next_pcrs := n\<rparr>)))
               else (Go, s))
      in (case r of
            (Go, s1) \<Rightarrow>
              (if verbose_pcr then
                 (case (this_pcrs s1 idx, next_pcrs s1 idx) of
                    (Some t, Some n) \<Rightarrow> (Go, emit (AfterEvent idx t n) s1)
                  | _ \<Rightarrow> (Raise KeyError, s1))
               else (Go, s1))
          | other \<Rightarrow> other))"

text \<open>Lines 40 to 108: the body of the loop for one entry.\<close>

definition process_event ::
  "'dp env \<Rightarrow> args \<Rightarrow> bool \<Rightarrow> int list \<Rightarrow> st \<Rightarrow> event \<Rightarrow> ctl \<times> st" where
  "process_event E a verbose_all_pcrs wanted_pcrs s ev =
     (let idx = pcr_idx ev;
          verbose_pcr = (verbose a \<and> (verbose_all_pcrs \<or> idx \<in> set wanted_pcrs));
          s0 = (if verbose_pcr then emit (ShowLogEntry ev) s else s)
      in (case pcr_extend_value ev of
            None \<Rightarrow> (ContinueLoop, emit SkipNoSha1Bank s0)
          | Some this_extend_value \<Rightarrow>
              (if idx = VIRTUAL_PCR then (ContinueLoop, emit SkipVirtualPcr s0)
               else
                 (case bsa_block E a verbose_pcr s0 ev this_extend_value this_extend_value of
                    (Go, s1, v1) \<Rightarrow>
                      (case ipl_block E a wanted_pcrs s1 ev v1 of
                         (Go, s2, next_extend_value) \<Rightarrow>
                           fold_block E verbose_pcr s2 ev this_extend_value next_extend_value
                       | (c, s2, _) \<Rightarrow> (c, s2))
                  | (c, s1, _) \<Rightarrow> (c, s1)))))"

text \<open>Line 39: the loop. \<^verbatim>\<open>continue\<close> and falling through both go on with the next
  entry; \<^verbatim>\<open>exit\<close> and an uncaught exception end the pass where they happen.\<close>

fun run_events ::
  "'dp env \<Rightarrow> args \<Rightarrow> bool \<Rightarrow> int list \<Rightarrow> st \<Rightarrow> event list \<Rightarrow> ctl \<times> st" where
  "run_events E a verbose_all_pcrs wanted_pcrs s [] = (Go, s)"
| "run_events E a verbose_all_pcrs wanted_pcrs s (ev # evs) =
     (case process_event E a verbose_all_pcrs wanted_pcrs s ev of
        (Go, s1) \<Rightarrow> run_events E a verbose_all_pcrs wanted_pcrs s1 evs
      | (ContinueLoop, s1) \<Rightarrow> run_events E a verbose_all_pcrs wanted_pcrs s1 evs
      | other \<Rightarrow> other)"

text \<open>Lines 115 to 121: the comparison loop. \<^verbatim>\<open>real_pcrs[idx]\<close> is read first.\<close>

fun compare_loop :: "pcrs \<Rightarrow> st \<Rightarrow> int list \<Rightarrow> ctl \<times> st" where
  "compare_loop real_pcrs s [] = (Go, s)"
| "compare_loop real_pcrs s (idx # rest) =
     (case real_pcrs idx of
        None \<Rightarrow> (Raise KeyError, s)
      | Some r \<Rightarrow>
          (case this_pcrs s idx of
             None \<Rightarrow> (Raise KeyError, s)
           | Some t \<Rightarrow>
               (let s1 = (if r = t then s else s\<lparr>errors := errors s + 1\<rparr>)
                in compare_loop real_pcrs (emit (CompareRow idx r t (r = t)) s1) rest)))"

text \<open>Lines 127 and 128: the rows of the final table.\<close>

fun table_loop :: "st \<Rightarrow> int list \<Rightarrow> ctl \<times> st" where
  "table_loop s [] = (Go, s)"
| "table_loop s (idx # rest) =
     (case (this_pcrs s idx, next_pcrs s idx) of
        (Some t, Some n) \<Rightarrow> table_loop (emit (FinalRow idx t n) s) rest
      | _ \<Rightarrow> (Raise KeyError, s))"

text \<open>Lines 136 and 137: the writes to the open file.\<close>

fun write_loop :: "st \<Rightarrow> int list \<Rightarrow> ctl \<times> st" where
  "write_loop s [] = (Go, s)"
| "write_loop s (idx # rest) =
     (case next_pcrs s idx of
        None \<Rightarrow> (Raise KeyError, s)
      | Some n \<Rightarrow>
          write_loop (s\<lparr>written := map_option (\<lambda>(p, b). (p, b @ n)) (written s)\<rparr>) rest)"

fun outcome_of :: "ctl \<Rightarrow> outcome" where
  "outcome_of Go = Returned"
| "outcome_of ContinueLoop = Returned"
| "outcome_of (ExitWith n) = Exited n"
| "outcome_of (Raise x) = Uncaught x"

text \<open>Lines 110 to 122: compare mode. \<^verbatim>\<open>exit(errors > 0)\<close> gives status 1 for
  \<^verbatim>\<open>True\<close> and 0 for \<^verbatim>\<open>False\<close>.\<close>

definition compare_mode :: "'dp env \<Rightarrow> int list \<Rightarrow> st \<Rightarrow> ctl \<times> st" where
  "compare_mode E wanted_pcrs s =
     (let s1 = emit CompareHeader s
      in (case read_current_pcrs E wanted_pcrs of
            Inl x \<Rightarrow> (Raise x, s1)
          | Inr real_pcrs \<Rightarrow>
              (case compare_loop real_pcrs (emit CompareColumns (s1\<lparr>errors := 0\<rparr>)) wanted_pcrs of
                 (Go, s2) \<Rightarrow> (ExitWith (if errors s2 > 0 then 1 else 0), s2)
               | other \<Rightarrow> other)))"

text \<open>Lines 124 to 137: the final table, the check of the error flag, the output
  file.\<close>

definition report_mode :: "'dp env \<Rightarrow> args \<Rightarrow> int list \<Rightarrow> st \<Rightarrow> ctl \<times> st" where
  "report_mode E a wanted_pcrs s =
     (case (if verbose a \<or> \<not> truthy (output_arg a)
            then table_loop (emit FinalColumns (emit FinalHeader s)) wanted_pcrs
            else (Go, s)) of
        (Go, s1) \<Rightarrow>
          (if errors s1 \<noteq> 0 then (ExitWith 1, emit StderrFatalErrors s1)
           else if truthy (output_arg a) then
             (case open_wb E (the (output_arg a)) of
                Some x \<Rightarrow> (Raise x, s1)
              | None \<Rightarrow> write_loop (s1\<lparr>written := Some (the (output_arg a), [])\<rparr>) wanted_pcrs)
           else (Go, s1))
      | other \<Rightarrow> other)"

text \<open>Lines 13 to 137: the whole of \<^verbatim>\<open>main\<close>. The result is how the process ends
  and the final state.\<close>

definition main :: "'dp env \<Rightarrow> args \<Rightarrow> outcome \<times> st" where
  "main E a =
     (case wanted_pcrs_of E a of
        Inl x \<Rightarrow> (Uncaught x, init_st)
      | Inr (verbose_all_pcrs, wanted_pcrs) \<Rightarrow>
          (case run_events E a verbose_all_pcrs wanted_pcrs init_st
                  (enum_log_entries E (log_path a)) of
             (Go, s) \<Rightarrow>
               (case (if compare a then compare_mode E wanted_pcrs s
                      else report_mode E a wanted_pcrs s) of
                  (c, s1) \<Rightarrow> (outcome_of c, s1))
           | (c, s) \<Rightarrow> (outcome_of c, s)))"

section \<open>The program \<^verbatim>\<open>src/lib/__init__.py\<close>\<close>

text \<open>Line 12: the module's global, never assigned again.\<close>

definition quiet :: bool where
  "quiet = False"

text \<open>Lines 22 to 24: both banks before the first entry.\<close>

definition lib_init_st :: st where
  "lib_init_st =
     (let this_pcrs0 =
            map_of (map (\<lambda>x. (int x, replicate PCR_SIZE (0::byte))) [0..<NUM_PCRS])
              ++ map_of (map (\<lambda>x. (x, replicate PCR_SIZE (0xFF::byte)))
                           [17, 18, 19, 20, 21, 22])
      in \<lparr>this_pcrs = this_pcrs0, next_pcrs = this_pcrs0,
          last_efi_binary = None, errors = 0, out = [], written = None\<rparr>)"

text \<open>Lines 48 and 49, one bank:
  \<^verbatim>\<open>pcrs[idx] = hashlib.sha1(pcrs[idx] + value).digest()\<close>.\<close>

definition lib_extend :: "(bytes \<Rightarrow> bytes) \<Rightarrow> pcrs \<Rightarrow> int \<Rightarrow> bytes \<Rightarrow> exn + pcrs" where
  "lib_extend H pcrs idx val =
     (case pcrs idx of
        None \<Rightarrow> Inl KeyError
      | Some old \<Rightarrow> Inr (pcrs(idx \<mapsto> H (old @ val))))"

text \<open>Lines 33 to 46: the block for an \<^verbatim>\<open>EFI_BOOT_SERVICES_APPLICATION\<close> entry.
  Nothing is caught here.\<close>

definition lib_bsa_block ::
  "'dp env \<Rightarrow> st \<Rightarrow> event \<Rightarrow> bytes \<Rightarrow> bytes \<Rightarrow> ctl \<times> st \<times> bytes" where
  "lib_bsa_block E s ev this_extend_value next_extend_value =
     (if event_type ev = EFI_BOOT_SERVICES_APPLICATION then
        (case parse_efi_bsa_event E (event_data ev) of
           Inl x \<Rightarrow> (Raise x, s, next_extend_value)
         | Inr device_path_vec \<Rightarrow>
             (case device_path_to_unix_path E device_path_vec of
                Inl x \<Rightarrow> (Raise x, s, next_extend_value)
              | Inr unix_path \<Rightarrow>
                  (case hash_pecoff E unix_path ''sha1'' of
                     Inl x \<Rightarrow> (Raise x, s, next_extend_value)
                   | Inr file_hash \<Rightarrow>
                       (case this_pcrs s (pcr_idx ev) of
                          None \<Rightarrow> (Raise KeyError, s, file_hash)
                        | Some pcr_value \<Rightarrow>
                            (let pcr_value1 = sha1 E (pcr_value @ file_hash);
                                 s1 = (if \<not> quiet
                                       then emit (GuessedNextPcr pcr_value1)
                                              (emit (CoffHash unix_path file_hash
                                                       this_extend_value file_hash) s)
                                       else s)
                             in (Go, s1, file_hash))))))
      else (Go, s, next_extend_value))"

text \<open>Lines 27 to 53: the body of the loop for one entry. An entry without
  \<^verbatim>\<open>pcr_extend_value\<close> raises \<^verbatim>\<open>KeyError\<close> at line 30.\<close>

definition lib_process_event :: "'dp env \<Rightarrow> st \<Rightarrow> event \<Rightarrow> ctl \<times> st" where
  "lib_process_event E s ev =
     (let s0 = (if \<not> quiet then emit (ShowLogEntry ev) s else s);
          idx = pcr_idx ev
      in (case pcr_extend_value ev of
            None \<Rightarrow> (Raise KeyError, s0)
          | Some this_extend_value \<Rightarrow>
              (case lib_bsa_block E s0 ev this_extend_value this_extend_value of
                 (Go, s1, next_extend_value) \<Rightarrow>
                   (case lib_extend (sha1 E) (this_pcrs s1) idx this_extend_value of
                      Inl x \<Rightarrow> (Raise x, s1)
                    | Inr t \<Rightarrow>
                        (case lib_extend (sha1 E) (next_pcrs s1) idx next_extend_value of
                           Inl x \<Rightarrow> (Raise x, s1\<lparr>this_pcrs := t\<rparr>)
                         | Inr n \<Rightarrow>
                             (let s2 = s1\<lparr>this_pcrs := t, next_pcrs := n\<rparr>
                              in (Go, (if \<not> quiet
                                       then emit (AfterEvent idx (the (t idx)) (the (n idx))) s2
                                       else s2)))))
               | (c, s1, _) \<Rightarrow> (c, s1))))"

fun lib_run_events :: "'dp env \<Rightarrow> st \<Rightarrow> event list \<Rightarrow> ctl \<times> st" where
  "lib_run_events E s [] = (Go, s)"
| "lib_run_events E s (ev # evs) =
     (case lib_process_event E s ev of
        (Go, s1) \<Rightarrow> lib_run_events E s1 evs
      | other \<Rightarrow> other)"

text \<open>Lines 56 to 58: register 8 takes the live value when the log left it at zero.\<close>

definition lib_pcr8_hack :: "'dp env \<Rightarrow> st \<Rightarrow> ctl \<times> st" where
  "lib_pcr8_hack E s =
     (case this_pcrs s 8 of
        None \<Rightarrow> (Raise KeyError, s)
      | Some v \<Rightarrow>
          (if v = replicate PCR_SIZE 0 then
             (case read_current_pcr E 8 of
                Inl x \<Rightarrow> (Raise x, s)
              | Inr live \<Rightarrow> (Go, s\<lparr>this_pcrs := (this_pcrs s)(8 \<mapsto> live),
                                   next_pcrs := (next_pcrs s)(8 \<mapsto> live)\<rparr>))
           else (Go, s)))"

text \<open>Lines 60 to 68: all 24 predicted digests to the standard output when quiet,
  the table otherwise.\<close>

definition lib_output :: "'dp env \<Rightarrow> st \<Rightarrow> ctl \<times> st" where
  "lib_output E s =
     (let wanted_pcrs = map int [0..<NUM_PCRS]
      in if quiet then
           (case open_wb E ''/dev/stdout'' of
              Some x \<Rightarrow> (Raise x, s)
            | None \<Rightarrow> write_loop (s\<lparr>written := Some (''/dev/stdout'', [])\<rparr>) wanted_pcrs)
         else table_loop (emit FinalHeader s) (map int [0..<NUM_PCRS]))"

definition lib_main :: "'dp env \<Rightarrow> outcome \<times> st" where
  "lib_main E =
     (case lib_run_events E lib_init_st (enum_log_entries E None) of
        (Go, s) \<Rightarrow>
          (case lib_pcr8_hack E s of
             (Go, s1) \<Rightarrow> (case lib_output E s1 of (c, s2) \<Rightarrow> (outcome_of c, s2))
           | (c, s1) \<Rightarrow> (outcome_of c, s1))
      | (c, s) \<Rightarrow> (outcome_of c, s))"

section \<open>The classification of entries in the specification\<close>

text \<open>Following the specification's words (section 4.2): an entry is divergent when
  it passes the filter of step 1 (it carries an extend digest and its index is not the
  sentinel) and it is an \<^verbatim>\<open>EFI_BOOT_SERVICES_APPLICATION\<close> entry whose path was
  resolved and rehashed (step 3), or an \<^verbatim>\<open>IPL\<close> entry on a requested register whose
  command line was predicted and encoded (step 4; in verbose mode the trace of the old
  command line must succeed first, or the run dies before the prediction is used).
  \<open>divergent_idxs\<close> collects the registers of the divergent entries that the pass
  processes, each classified in the state the pass has reached; entries after the one
  that ends the pass are not processed.\<close>

definition passes_filter :: "event \<Rightarrow> bool" where
  "passes_filter ev = (pcr_extend_value ev \<noteq> None \<and> pcr_idx ev \<noteq> VIRTUAL_PCR)"

definition bsa_divergent :: "'dp env \<Rightarrow> event \<Rightarrow> bool" where
  "bsa_divergent E ev =
     (passes_filter ev \<and> event_type ev = EFI_BOOT_SERVICES_APPLICATION \<and>
      (case parse_efi_bsa_event E (event_data ev) of
         Inl _ \<Rightarrow> False
       | Inr dp \<Rightarrow>
           (case device_path_to_unix_path E dp of
              Inl _ \<Rightarrow> False
            | Inr p \<Rightarrow> truthy p \<and> (case hash_pecoff E p ''sha1'' of Inl _ \<Rightarrow> False | Inr _ \<Rightarrow> True))))"

definition ipl_divergent :: "'dp env \<Rightarrow> args \<Rightarrow> int list \<Rightarrow> st \<Rightarrow> event \<Rightarrow> bool" where
  "ipl_divergent E a wanted_pcrs s ev =
     (passes_filter ev \<and> event_type ev = IPL \<and> pcr_idx ev \<in> set wanted_pcrs \<and>
      (case loader_get_next_cmdline E (last_efi_binary s) of
         Inl _ \<Rightarrow> False
       | Inr cmdline \<Rightarrow>
           (if verbose a
            then (case decode_utf16le E (butlast (event_data ev)) of
                    Inl _ \<Rightarrow> False | Inr _ \<Rightarrow> True)
            else True)
           \<and> (case loader_encode_pcr8 E cmdline of Inl _ \<Rightarrow> False | Inr _ \<Rightarrow> True)))"

definition divergent :: "'dp env \<Rightarrow> args \<Rightarrow> int list \<Rightarrow> st \<Rightarrow> event \<Rightarrow> bool" where
  "divergent E a wanted_pcrs s ev =
     (bsa_divergent E ev \<or> ipl_divergent E a wanted_pcrs s ev)"

fun divergent_idxs ::
  "'dp env \<Rightarrow> args \<Rightarrow> bool \<Rightarrow> int list \<Rightarrow> st \<Rightarrow> event list \<Rightarrow> int set" where
  "divergent_idxs E a va w s [] = {}"
| "divergent_idxs E a va w s (ev # evs) =
     (if divergent E a w s ev then {pcr_idx ev} else {})
       \<union> (case process_event E a va w s ev of
            (Go, s1) \<Rightarrow> divergent_idxs E a va w s1 evs
          | (ContinueLoop, s1) \<Rightarrow> divergent_idxs E a va w s1 evs
          | other \<Rightarrow> {})"

text \<open>An entry that is folded and is not divergent: it is neither a boot-application
  entry nor a \<^verbatim>\<open>NO_ACTION\<close> entry, its index is not the sentinel, and, if it is an
  \<^verbatim>\<open>IPL\<close> entry on a requested register, the predictor reports that the environment
  is not recognized. \<open>one_extend\<close> says that a bank results from another by one extend
  operation at an index.\<close>

definition non_divergent_fold :: "'dp env \<Rightarrow> int list \<Rightarrow> st \<Rightarrow> event \<Rightarrow> bool" where
  "non_divergent_fold E wanted_pcrs s ev =
     (event_type ev \<noteq> EFI_BOOT_SERVICES_APPLICATION \<and> event_type ev \<noteq> NO_ACTION
      \<and> pcr_idx ev \<noteq> VIRTUAL_PCR
      \<and> (if event_type ev = IPL \<and> pcr_idx ev \<in> set wanted_pcrs
          then loader_get_next_cmdline E (last_efi_binary s) = Inl FileNotFoundError
          else True))"

definition one_extend :: "(bytes \<Rightarrow> bytes) \<Rightarrow> pcrs \<Rightarrow> int \<Rightarrow> pcrs \<Rightarrow> bool" where
  "one_extend H before idx after =
     (\<exists>old val. before idx = Some old \<and> after = before(idx \<mapsto> H (old @ val)))"

text \<open>The lines of the final table (lines 125 to 128 of
  \<^verbatim>\<open>src/tpm_futurepcr/__init__.py\<close>), and the states whose output has none of them.\<close>

fun final_table_line :: "out_line \<Rightarrow> bool" where
  "final_table_line FinalHeader = True"
| "final_table_line FinalColumns = True"
| "final_table_line (FinalRow idx t n) = True"
| "final_table_line other = False"

definition no_final_table :: "st \<Rightarrow> bool" where
  "no_final_table s = (list_all (\<lambda>l. \<not> final_table_line l) (out s))"

section \<open>An example environment\<close>

text \<open>Concrete collaborators and entries for the closed examples. \<open>toy_hash\<close> stands in
  for the hash function there; the theorems hold for every function.\<close>

definition toy_hash :: "bytes \<Rightarrow> bytes" where
  "toy_hash bs = replicate 20 (fold (\<lambda>b acc. 3 * acc + b) bs 1)"

definition demo_env :: "bytes env" where
  "demo_env =
     \<lparr>sha1 = toy_hash,
      enum_log_entries = (\<lambda>path. []),
      parse_efi_bsa_event = (\<lambda>data. Inr data),
      device_path_to_unix_path =
        (\<lambda>dp. if dp = [] then Inl (OtherException ''no file path'')
              else Inr (Some ''/boot/loader.efi'')),
      hash_pecoff = (\<lambda>path alg. Inr (replicate 20 0x33)),
      loader_get_next_cmdline = (\<lambda>path. Inl FileNotFoundError),
      loader_encode_pcr8 = (\<lambda>cmdline. Inr []),
      decode_utf16le = (\<lambda>data. Inr []),
      read_current_pcrs = (\<lambda>idxs. Inr init_empty_pcrs),
      read_current_pcr = (\<lambda>idx. Inr (replicate 20 0xAB)),
      py_int = (\<lambda>s. if s = ''0'' then Inr 0 else if s = ''17'' then Inr 17
                     else Inl ValueError),
      open_wb = (\<lambda>path. None)\<rparr>"

definition demo_args :: args where
  "demo_args = \<lparr>pcr_list = None, output_arg = None, compare = False, verbose = False,
     log_path = None\<rparr>"

definition entry_A :: event where
  "entry_A = \<lparr>pcr_idx = 0, event_type = Other 1, event_data = [],
     pcr_extend_value = Some (replicate 20 0x11)\<rparr>"

definition entry_B :: event where
  "entry_B = \<lparr>pcr_idx = 0, event_type = Other 1, event_data = [],
     pcr_extend_value = Some (replicate 20 0x22)\<rparr>"

definition entry_bsa :: event where
  "entry_bsa = \<lparr>pcr_idx = 4, event_type = EFI_BOOT_SERVICES_APPLICATION, event_data = [1],
     pcr_extend_value = Some (replicate 20 0x44)\<rparr>"

definition entry_unresolved :: event where
  "entry_unresolved = \<lparr>pcr_idx = 4, event_type = EFI_BOOT_SERVICES_APPLICATION,
     event_data = [], pcr_extend_value = Some (replicate 20 0x44)\<rparr>"

definition entry_ipl :: event where
  "entry_ipl = \<lparr>pcr_idx = 8, event_type = IPL, event_data = [],
     pcr_extend_value = Some (replicate 20 0x55)\<rparr>"

definition entry_no_action :: event where
  "entry_no_action = \<lparr>pcr_idx = 0, event_type = NO_ACTION, event_data = [],
     pcr_extend_value = Some (replicate 20 0x66)\<rparr>"

definition env_with_log :: "event list \<Rightarrow> bytes env" where
  "env_with_log evs = demo_env\<lparr>enum_log_entries := (\<lambda>path. evs)\<rparr>"

definition args_compare_verbose :: args where
  "args_compare_verbose = \<lparr>pcr_list = Some ''0'', output_arg = None, compare = True,
     verbose = True, log_path = None\<rparr>"

definition args_verbose :: args where
  "args_verbose = \<lparr>pcr_list = Some ''0'', output_arg = None, compare = False,
     verbose = True, log_path = None\<rparr>"

definition args_output :: args where
  "args_output = \<lparr>pcr_list = Some ''17,0'', output_arg = Some ''pcrs.bin'', compare = False,
     verbose = False, log_path = None\<rparr>"

definition args_verbose_output :: args where
  "args_verbose_output = \<lparr>pcr_list = Some ''0'', output_arg = Some ''pcrs.bin'',
     compare = False, verbose = True, log_path = None\<rparr>"

definition args_compare_strict :: args where
  "args_compare_strict = \<lparr>pcr_list = Some ''0'', output_arg = None, compare = True,
     verbose = False, log_path = None\<rparr>"

text \<open>The inverse of \<^verbatim>\<open>split(",")\<close>: the fields joined by commas (Python's
  \<^verbatim>\<open>",".join\<close>). It states which fields line 29 reads: those of the list, in the
  order in which they are written.\<close>

fun join_comma :: "string list \<Rightarrow> string" where
  "join_comma [] = []"
| "join_comma [f] = f"
| "join_comma (f # g # fs) = f @ CHR '','' # join_comma (g # fs)"

section \<open>Auxiliary facts\<close>

lemma map_of_upt_const:
  "map_of (map (\<lambda>x. (int x, c)) [0..<n]) i = (if 0 \<le> i \<and> i < int n then Some c else None)"
  by (induction n) (auto simp: map_add_def split: option.splits)

lemma init_empty_pcrs_apply:
  "init_empty_pcrs i =
     (if 0 \<le> i \<and> i < 24
      then Some (replicate 20 (if 17 \<le> i \<and> i \<le> 22 then 0xFF else 0))
      else None)"
  by (auto simp: init_empty_pcrs_def map_add_def map_of_upt_const NUM_PCRS_def PCR_SIZE_def)

lemma lib_init_st_pcrs:
  "this_pcrs lib_init_st = init_empty_pcrs" "next_pcrs lib_init_st = init_empty_pcrs"
  by (simp_all add: lib_init_st_def init_empty_pcrs_def Let_def)

lemma emit_simps [simp]:
  "this_pcrs (emit l s) = this_pcrs s" "next_pcrs (emit l s) = next_pcrs s"
  "last_efi_binary (emit l s) = last_efi_binary s" "errors (emit l s) = errors s"
  "written (emit l s) = written s" "out (emit l s) = out s @ [l]"
  by (simp_all add: emit_def)

lemma bsa_block_pcrs:
  "bsa_block E a vp s ev t v = (c, s', v') \<Longrightarrow>
     this_pcrs s' = this_pcrs s \<and> next_pcrs s' = next_pcrs s \<and> written s' = written s"
  by (auto simp: bsa_block_def Let_def split: if_splits sum.splits prod.splits)

lemma ipl_try_pcrs:
  "ipl_try E a s ev = (r, s') \<Longrightarrow>
     this_pcrs s' = this_pcrs s \<and> next_pcrs s' = next_pcrs s \<and> written s' = written s
     \<and> last_efi_binary s' = last_efi_binary s \<and> errors s' = errors s"
  by (auto simp: ipl_try_def split: if_splits sum.splits)

lemma ipl_block_pcrs:
  "ipl_block E a w s ev v = (c, s', v') \<Longrightarrow>
     this_pcrs s' = this_pcrs s \<and> next_pcrs s' = next_pcrs s \<and> written s' = written s
     \<and> last_efi_binary s' = last_efi_binary s \<and> errors s' = errors s"
  by (auto simp: ipl_block_def split: if_splits sum.splits prod.splits exn.splits dest: ipl_try_pcrs)

lemma extend_dom: "extend H p i v = Inr p' \<Longrightarrow> dom p' = dom p"
  by (auto simp: extend_def split: option.splits if_splits)

lemma extend_other: "extend H p i v = Inr p' \<Longrightarrow> j \<noteq> i \<Longrightarrow> p' j = p j"
  by (auto simp: extend_def split: option.splits)

lemma bsa_block_value:
  "bsa_block E a vp s ev t t = (Go, s', v) \<Longrightarrow> passes_filter ev \<Longrightarrow>
     v = t \<or> bsa_divergent E ev"
  by (auto simp: bsa_block_def bsa_divergent_def Let_def split: if_splits sum.splits prod.splits)

lemma bsa_block_other_type:
  "event_type ev \<noteq> EFI_BOOT_SERVICES_APPLICATION \<Longrightarrow> bsa_block E a vp s ev t v = (Go, s, v)"
  by (simp add: bsa_block_def)

lemma ipl_block_other_type:
  "event_type ev \<noteq> IPL \<Longrightarrow> ipl_block E a w s ev v = (Go, s, v)"
  by (simp add: ipl_block_def)

lemma ipl_block_value:
  "ipl_block E a w s ev v = (Go, s', v') \<Longrightarrow> passes_filter ev \<Longrightarrow>
     v' = v \<or> ipl_divergent E a w s ev"
  by (auto simp: ipl_block_def ipl_try_def ipl_divergent_def
      split: if_splits sum.splits prod.splits exn.splits)

lemma fold_block_agree:
  "fold_block E vp s ev t n = (c, s') \<Longrightarrow> this_pcrs s i = next_pcrs s i \<Longrightarrow>
     (pcr_idx ev = i \<longrightarrow> t = n) \<Longrightarrow> this_pcrs s' i = next_pcrs s' i"
  by (auto simp: fold_block_def extend_def Let_def
      split: if_splits sum.splits prod.splits option.splits ctl.splits)

lemma fold_block_dom:
  "fold_block E vp s ev t n = (c, s') \<Longrightarrow>
     dom (this_pcrs s') = dom (this_pcrs s) \<and> dom (next_pcrs s') = dom (next_pcrs s)
     \<and> written s' = written s \<and> errors s' = errors s \<and> last_efi_binary s' = last_efi_binary s"
  by (auto simp: fold_block_def Let_def extend_def
      split: if_splits sum.splits prod.splits option.splits ctl.splits)

lemma process_event_agree:
  assumes "process_event E a va w s ev = (c, s')"
    and "this_pcrs s i = next_pcrs s i"
    and "\<not> (pcr_idx ev = i \<and> divergent E a w s ev)"
  shows "this_pcrs s' i = next_pcrs s' i"
proof (cases "pcr_extend_value ev")
  case None
  with assms show ?thesis by (auto simp: process_event_def Let_def)
next
  case (Some t)
  define vp where "vp = (verbose a \<and> (va \<or> pcr_idx ev \<in> set w))"
  define s0 where "s0 = (if vp then emit (ShowLogEntry ev) s else s)"
  have s0: "this_pcrs s0 = this_pcrs s" "next_pcrs s0 = next_pcrs s"
    "last_efi_binary s0 = last_efi_binary s"
    by (simp_all add: s0_def)
  show ?thesis
  proof (cases "pcr_idx ev = VIRTUAL_PCR")
    case True
    with assms Some show ?thesis by (auto simp: process_event_def Let_def)
  next
    case False
    obtain c1 s1 v1 where b: "bsa_block E a vp s0 ev t t = (c1, s1, v1)"
      by (metis prod_cases3)
    note bp = bsa_block_pcrs [OF b]
    show ?thesis
    proof (cases "c1 = Go")
      case False
      with assms Some \<open>pcr_idx ev \<noteq> VIRTUAL_PCR\<close> b bp s0 show ?thesis
        by (cases c1) (auto simp: process_event_def Let_def vp_def s0_def)
    next
      case True
      obtain c2 s2 v2 where i: "ipl_block E a w s1 ev v1 = (c2, s2, v2)"
        by (metis prod_cases3)
      note ip = ipl_block_pcrs [OF i]
      show ?thesis
      proof (cases "c2 = Go")
        case False
        with assms Some \<open>pcr_idx ev \<noteq> VIRTUAL_PCR\<close> b bp s0 True i ip show ?thesis
          by (cases c2) (auto simp: process_event_def Let_def vp_def s0_def)
      next
        case c2: True
        have f: "fold_block E vp s2 ev t v2 = (c, s')"
          using assms(1) Some \<open>pcr_idx ev \<noteq> VIRTUAL_PCR\<close> b True i c2
          by (simp add: process_event_def Let_def vp_def s0_def)
        have pf: "passes_filter ev"
          using Some \<open>pcr_idx ev \<noteq> VIRTUAL_PCR\<close> by (simp add: passes_filter_def)
        have v1: "v1 = t \<or> bsa_divergent E ev"
          using b True pf bsa_block_value by blast
        have s1: "event_type ev = IPL \<Longrightarrow> last_efi_binary s1 = last_efi_binary s"
          using b s0 by (simp add: bsa_block_other_type)
        have v2: "v2 = v1 \<or> ipl_divergent E a w s ev"
        proof (cases "event_type ev = IPL")
          case True
          then have "s1 = s0" using b by (simp add: bsa_block_other_type)
          then have "ipl_divergent E a w s1 ev = ipl_divergent E a w s ev"
            using s0 by (simp add: ipl_divergent_def)
          then show ?thesis using ipl_block_value i c2 pf by blast
        next
          case False
          then show ?thesis using i by (simp add: ipl_block_other_type)
        qed
        have "pcr_idx ev = i \<longrightarrow> t = v2"
          using v1 v2 assms(3) by (auto simp: divergent_def)
        moreover have "this_pcrs s2 i = next_pcrs s2 i"
          using assms(2) s0 bp ip by simp
        ultimately show ?thesis using fold_block_agree [OF f] by blast
      qed
    qed
  qed
qed

lemma process_event_frame:
  assumes "process_event E a va w s ev = (c, s')"
  shows "dom (this_pcrs s') = dom (this_pcrs s) \<and> dom (next_pcrs s') = dom (next_pcrs s)
     \<and> written s' = written s"
proof (cases "pcr_extend_value ev")
  case None
  with assms show ?thesis by (auto simp: process_event_def Let_def split: if_splits)
next
  case (Some t)
  define vp where "vp = (verbose a \<and> (va \<or> pcr_idx ev \<in> set w))"
  define s0 where "s0 = (if vp then emit (ShowLogEntry ev) s else s)"
  have s0: "this_pcrs s0 = this_pcrs s" "next_pcrs s0 = next_pcrs s" "written s0 = written s"
    by (simp_all add: s0_def)
  obtain c1 s1 v1 where b: "bsa_block E a vp s0 ev t t = (c1, s1, v1)"
    by (metis prod_cases3)
  note bp = bsa_block_pcrs [OF b]
  obtain c2 s2 v2 where i: "ipl_block E a w s1 ev v1 = (c2, s2, v2)"
    by (metis prod_cases3)
  note ip = ipl_block_pcrs [OF i]
  obtain c3 s3 where f: "fold_block E vp s2 ev t v2 = (c3, s3)"
    by (metis prod.exhaust)
  note fp = fold_block_dom [OF f]
  from assms Some b i f bp ip fp s0 show ?thesis
    by (cases c1; cases c2) (auto simp: process_event_def Let_def vp_def s0_def split: if_splits)
qed

lemma run_events_frame:
  "run_events E a va w s evs = (c, s') \<Longrightarrow>
     dom (this_pcrs s') = dom (this_pcrs s) \<and> dom (next_pcrs s') = dom (next_pcrs s)
     \<and> written s' = written s"
proof (induction evs arbitrary: s)
  case Nil
  then show ?case by simp
next
  case (Cons ev evs)
  obtain c1 s1 where p: "process_event E a va w s ev = (c1, s1)"
    by (metis prod.exhaust)
  note pf = process_event_frame [OF p]
  show ?case
  proof (cases "c1 = Go \<or> c1 = ContinueLoop")
    case True
    then have "run_events E a va w s1 evs = (c, s')"
      using Cons.prems p by auto
    from Cons.IH [OF this] pf show ?thesis by simp
  next
    case False
    then have "(c, s') = (c1, s1)" using Cons.prems p by (cases c1) auto
    with pf show ?thesis by simp
  qed
qed

lemma run_events_agree:
  "run_events E a va w s evs = (c, s') \<Longrightarrow> this_pcrs s i = next_pcrs s i \<Longrightarrow>
     i \<notin> divergent_idxs E a va w s evs \<Longrightarrow> this_pcrs s' i = next_pcrs s' i"
proof (induction evs arbitrary: s)
  case Nil
  then show ?case by simp
next
  case (Cons ev evs)
  obtain c1 s1 where p: "process_event E a va w s ev = (c1, s1)"
    by (metis prod.exhaust)
  have nd: "\<not> (pcr_idx ev = i \<and> divergent E a w s ev)"
    using Cons.prems(3) by auto
  have a1: "this_pcrs s1 i = next_pcrs s1 i"
    using process_event_agree [OF p Cons.prems(2) nd] .
  show ?case
  proof (cases "c1 = Go \<or> c1 = ContinueLoop")
    case True
    then have rest: "i \<notin> divergent_idxs E a va w s1 evs"
      using Cons.prems(3) p by auto
    from True have "run_events E a va w s1 evs = (c, s')"
      using Cons.prems(1) p by auto
    from Cons.IH [OF this a1 rest] show ?thesis .
  next
    case False
    then have "(c, s') = (c1, s1)" using Cons.prems(1) p by (cases c1) auto
    with a1 show ?thesis by simp
  qed
qed

lemma init_st_simps [simp]:
  "this_pcrs init_st = init_empty_pcrs" "next_pcrs init_st = init_empty_pcrs"
  "last_efi_binary init_st = None" "errors init_st = 0" "out init_st = []"
  "written init_st = None"
  by (simp_all add: init_st_def)

lemma no_final_table_emit [simp]:
  "no_final_table (emit l s) = (no_final_table s \<and> \<not> final_table_line l)"
  by (auto simp: no_final_table_def)

lemma no_final_table_upd [simp]:
  "no_final_table (s\<lparr>errors := e\<rparr>) = no_final_table s"
  "no_final_table (s\<lparr>last_efi_binary := b\<rparr>) = no_final_table s"
  "no_final_table (s\<lparr>this_pcrs := t\<rparr>) = no_final_table s"
  "no_final_table (s\<lparr>next_pcrs := n\<rparr>) = no_final_table s"
  by (simp_all add: no_final_table_def)

lemma emit_upd [simp]:
  "errors ((emit l s)\<lparr>errors := e\<rparr>) = e"
  by simp

lemma bsa_block_out:
  "bsa_block E a vp s ev t v = (c, s', v') \<Longrightarrow> no_final_table s \<Longrightarrow> no_final_table s'"
  by (auto simp: bsa_block_def Let_def split: if_splits sum.splits prod.splits)

lemma bsa_block_errors:
  "bsa_block E a vp s ev t v = (c, s', v') \<Longrightarrow> errors s' = errors s \<or> errors s' = 1"
  by (auto simp: bsa_block_def Let_def split: if_splits sum.splits prod.splits)

lemma bsa_block_ctl:
  "bsa_block E a vp s ev t v = (c, s', v') \<Longrightarrow>
     c = Go \<or> (c = ContinueLoop \<and> verbose a) \<or> (c = ExitWith 1 \<and> \<not> verbose a) \<or> (\<exists>x. c = Raise x)"
  by (auto simp: bsa_block_def Let_def split: if_splits sum.splits prod.splits)

lemma ipl_try_out:
  "ipl_try E a s ev = (r, s') \<Longrightarrow> no_final_table s \<Longrightarrow> no_final_table s'"
  by (auto simp: ipl_try_def split: if_splits sum.splits)

lemma ipl_block_out:
  "ipl_block E a w s ev v = (c, s', v') \<Longrightarrow> no_final_table s \<Longrightarrow> no_final_table s'"
  by (auto simp: ipl_block_def split: if_splits sum.splits prod.splits exn.splits
      dest: ipl_try_out)

lemma ipl_block_ctl:
  "ipl_block E a w s ev v = (c, s', v') \<Longrightarrow> c = Go \<or> (\<exists>x. c = Raise x)"
  by (auto simp: ipl_block_def split: if_splits sum.splits prod.splits exn.splits)

lemma fold_block_out:
  "fold_block E vp s ev t n = (c, s') \<Longrightarrow> no_final_table s \<Longrightarrow> no_final_table s'"
  by (auto simp: fold_block_def Let_def
      split: if_splits sum.splits prod.splits option.splits ctl.splits)

lemma fold_block_ctl:
  "fold_block E vp s ev t n = (c, s') \<Longrightarrow> c = Go \<or> (\<exists>x. c = Raise x)"
  by (auto simp: fold_block_def Let_def
      split: if_splits sum.splits prod.splits option.splits ctl.splits)

lemma process_event_facts:
  assumes "process_event E a va w s ev = (c, s')"
  shows "(no_final_table s \<longrightarrow> no_final_table s')
       \<and> (errors s' = errors s \<or> errors s' = 1)
       \<and> (c = Go \<or> c = ContinueLoop \<or> (c = ExitWith 1 \<and> \<not> verbose a) \<or> (\<exists>x. c = Raise x))"
proof (cases "pcr_extend_value ev")
  case None
  with assms show ?thesis by (auto simp: process_event_def Let_def split: if_splits)
next
  case (Some t)
  define vp where "vp = (verbose a \<and> (va \<or> pcr_idx ev \<in> set w))"
  define s0 where "s0 = (if vp then emit (ShowLogEntry ev) s else s)"
  have s0: "no_final_table s0 = no_final_table s" "errors s0 = errors s"
    by (simp_all add: s0_def)
  obtain c1 s1 v1 where b: "bsa_block E a vp s0 ev t t = (c1, s1, v1)"
    by (metis prod_cases3)
  note b1 = bsa_block_out [OF b] and b2 = bsa_block_errors [OF b] and b3 = bsa_block_ctl [OF b]
  obtain c2 s2 v2 where i: "ipl_block E a w s1 ev v1 = (c2, s2, v2)"
    by (metis prod_cases3)
  note i1 = ipl_block_out [OF i] and i2 = ipl_block_pcrs [OF i] and i3 = ipl_block_ctl [OF i]
  obtain c3 s3 where f: "fold_block E vp s2 ev t v2 = (c3, s3)"
    by (metis prod.exhaust)
  note f1 = fold_block_out [OF f] and f2 = fold_block_dom [OF f] and f3 = fold_block_ctl [OF f]
  show ?thesis
  proof (cases "pcr_idx ev = VIRTUAL_PCR")
    case True
    with assms Some show ?thesis by (auto simp: process_event_def Let_def split: if_splits)
  next
    case False
    from assms Some False b i f have res:
      "(c, s') = (if c1 = Go then (if c2 = Go then (c3, s3) else (c2, s2)) else (c1, s1))"
      by (cases c1; cases c2) (auto simp: process_event_def Let_def vp_def s0_def)
    show ?thesis
    proof (cases "c1 = Go")
      case False
      with res b1 b2 b3 s0 show ?thesis by auto
    next
      case c1: True
      show ?thesis
      proof (cases "c2 = Go")
        case False
        with c1 res b1 b2 i1 i2 i3 s0 show ?thesis by auto
      next
        case True
        with c1 res b1 b2 i1 i2 f1 f2 f3 s0 show ?thesis by auto
      qed
    qed
  qed
qed

lemma run_events_facts:
  "run_events E a va w s evs = (c, s') \<Longrightarrow>
     (no_final_table s \<longrightarrow> no_final_table s')
     \<and> (errors s' = errors s \<or> errors s' = 1)
     \<and> (c = Go \<or> (c = ExitWith 1 \<and> \<not> verbose a) \<or> (\<exists>x. c = Raise x))"
proof (induction evs arbitrary: s)
  case Nil
  then show ?case by simp
next
  case (Cons ev evs)
  obtain c1 s1 where p: "process_event E a va w s ev = (c1, s1)"
    by (metis prod.exhaust)
  note pf = process_event_facts [OF p]
  show ?case
  proof (cases "c1 = Go \<or> c1 = ContinueLoop")
    case True
    then have "run_events E a va w s1 evs = (c, s')"
      using Cons.prems p by auto
    from Cons.IH [OF this] pf show ?thesis by auto
  next
    case False
    then have "(c, s') = (c1, s1)" using Cons.prems p by (cases c1) auto
    with pf False show ?thesis by auto
  qed
qed


lemma compare_loop_facts:
  "compare_loop real s w = (c, s') \<Longrightarrow>
     this_pcrs s' = this_pcrs s \<and> next_pcrs s' = next_pcrs s \<and> written s' = written s
     \<and> (no_final_table s \<longrightarrow> no_final_table s') \<and> (c = Go \<or> c = Raise KeyError)"
proof (induction w arbitrary: s)
  case Nil
  then show ?case by simp
next
  case (Cons i w)
  show ?case
  proof (cases "real i")
    case None
    with Cons.prems show ?thesis by simp
  next
    case (Some r)
    show ?thesis
    proof (cases "this_pcrs s i")
      case None
      with Cons.prems Some show ?thesis by simp
    next
      case t: (Some t)
      define s1 where "s1 = emit (CompareRow i r t (r = t))
        (if r = t then s else s\<lparr>errors := errors s + 1\<rparr>)"
      have "compare_loop real s1 w = (c, s')"
        using Cons.prems Some t by (simp add: s1_def Let_def)
      from Cons.IH [OF this] show ?thesis by (simp add: s1_def split: if_splits)
    qed
  qed
qed

lemma compare_loop_count:
  "compare_loop real s w = (Go, s') \<Longrightarrow>
     errors s' = errors s + int (length (filter (\<lambda>i. real i \<noteq> this_pcrs s i) w))"
proof (induction w arbitrary: s)
  case Nil
  then show ?case by simp
next
  case (Cons i w)
  from Cons.prems obtain r where r: "real i = Some r"
    by (cases "real i") auto
  from Cons.prems r obtain t where t: "this_pcrs s i = Some t"
    by (cases "this_pcrs s i") auto
  define s1 where "s1 = emit (CompareRow i r t (r = t))
    (if r = t then s else s\<lparr>errors := errors s + 1\<rparr>)"
  have "compare_loop real s1 w = (Go, s')"
    using Cons.prems r t by (simp add: s1_def Let_def)
  from Cons.IH [OF this] have "errors s' =
      errors s1 + int (length (filter (\<lambda>i. real i \<noteq> this_pcrs s1 i) w))" .
  moreover have "this_pcrs s1 = this_pcrs s" by (simp add: s1_def)
  moreover have "errors s1 = errors s + (if r = t then 0 else 1)" by (simp add: s1_def)
  ultimately show ?case using r t by simp
qed

lemma compare_loop_Go:
  "\<forall>i\<in>set w. real i \<noteq> None \<and> this_pcrs s i \<noteq> None \<Longrightarrow> fst (compare_loop real s w) = Go"
proof (induction w arbitrary: s)
  case Nil
  then show ?case by simp
next
  case (Cons i w)
  from Cons.prems obtain r t where rt: "real i = Some r" "this_pcrs s i = Some t" by auto
  define s1 where "s1 = emit (CompareRow i r t (r = t))
    (if r = t then s else s\<lparr>errors := errors s + 1\<rparr>)"
  have "this_pcrs s1 = this_pcrs s" by (simp add: s1_def)
  with Cons.prems have "\<forall>i\<in>set w. real i \<noteq> None \<and> this_pcrs s1 i \<noteq> None" by simp
  from Cons.IH [OF this] show ?case using rt by (simp add: s1_def Let_def)
qed

lemma table_loop_facts:
  "table_loop s w = (c, s') \<Longrightarrow>
     this_pcrs s' = this_pcrs s \<and> next_pcrs s' = next_pcrs s \<and> written s' = written s
     \<and> errors s' = errors s \<and> (c = Go \<or> c = Raise KeyError)"
proof (induction w arbitrary: s)
  case Nil
  then show ?case by simp
next
  case (Cons i w)
  show ?case
  proof (cases "this_pcrs s i = None \<or> next_pcrs s i = None")
    case True
    with Cons.prems show ?thesis by (auto split: option.splits)
  next
    case False
    then obtain t n where tn: "this_pcrs s i = Some t" "next_pcrs s i = Some n" by auto
    with Cons.prems have "table_loop (emit (FinalRow i t n) s) w = (c, s')" by simp
    from Cons.IH [OF this] show ?thesis by simp
  qed
qed

lemma table_loop_Go:
  "\<forall>i\<in>set w. this_pcrs s i \<noteq> None \<and> next_pcrs s i \<noteq> None \<Longrightarrow> fst (table_loop s w) = Go"
proof (induction w arbitrary: s)
  case Nil
  then show ?case by simp
next
  case (Cons i w)
  from Cons.prems obtain t n where tn: "this_pcrs s i = Some t" "next_pcrs s i = Some n" by auto
  have "\<forall>j\<in>set w. this_pcrs (emit (FinalRow i t n) s) j \<noteq> None
      \<and> next_pcrs (emit (FinalRow i t n) s) j \<noteq> None"
    using Cons.prems by simp
  from Cons.IH [OF this] show ?case using tn by simp
qed

lemma write_loop_facts:
  "write_loop s w = (c, s') \<Longrightarrow>
     this_pcrs s' = this_pcrs s \<and> next_pcrs s' = next_pcrs s \<and> out s' = out s
     \<and> errors s' = errors s \<and> (c = Go \<or> c = Raise KeyError)"
proof (induction w arbitrary: s)
  case Nil
  then show ?case by simp
next
  case (Cons i w)
  show ?case
  proof (cases "next_pcrs s i")
    case None
    with Cons.prems show ?thesis by simp
  next
    case (Some n)
    with Cons.prems have "write_loop
        (s\<lparr>written := map_option (\<lambda>(p, b). (p, b @ n)) (written s)\<rparr>) w = (c, s')"
      by simp
    from Cons.IH [OF this] show ?thesis by simp
  qed
qed

lemma write_loop_Go:
  "\<forall>i\<in>set w. next_pcrs s i \<noteq> None \<Longrightarrow> written s = Some (p, b) \<Longrightarrow>
     write_loop s w = (Go, s\<lparr>written := Some (p, b @ concat (map (\<lambda>i. the (next_pcrs s i)) w))\<rparr>)"
proof (induction w arbitrary: s b)
  case Nil
  then show ?case by simp
next
  case (Cons i w)
  from Cons.prems obtain n where n: "next_pcrs s i = Some n" by auto
  define s1 where "s1 = s\<lparr>written := Some (p, b @ n)\<rparr>"
  have "\<forall>i\<in>set w. next_pcrs s1 i \<noteq> None" "written s1 = Some (p, b @ n)"
    using Cons.prems by (simp_all add: s1_def)
  from Cons.IH [OF this] show ?case
    using n Cons.prems(2) by (simp add: s1_def)
qed

lemma compare_mode_facts:
  "compare_mode E w s = (c, s') \<Longrightarrow>
     this_pcrs s' = this_pcrs s \<and> next_pcrs s' = next_pcrs s \<and> written s' = written s
     \<and> (no_final_table s \<longrightarrow> no_final_table s') \<and> c \<noteq> Go \<and> c \<noteq> ContinueLoop"
proof (cases "read_current_pcrs E w")
  case (Inl x)
  assume "compare_mode E w s = (c, s')"
  with Inl show ?thesis by (auto simp: compare_mode_def Let_def)
next
  case (Inr real)
  assume cm: "compare_mode E w s = (c, s')"
  obtain c1 s1 where l: "compare_loop real
      (emit CompareColumns ((emit CompareHeader s)\<lparr>errors := 0\<rparr>)) w = (c1, s1)"
    by (metis prod.exhaust)
  note lf = compare_loop_facts [OF l]
  from cm Inr l lf show ?thesis
    by (cases c1) (auto simp: compare_mode_def Let_def)
qed

lemma report_mode_facts:
  "report_mode E a w s = (c, s') \<Longrightarrow>
     this_pcrs s' = this_pcrs s \<and> next_pcrs s' = next_pcrs s"
proof -
  assume rm: "report_mode E a w s = (c, s')"
  obtain c1 s1 where t: "(if verbose a \<or> \<not> truthy (output_arg a)
            then table_loop (emit FinalColumns (emit FinalHeader s)) w
            else (Go, s)) = (c1, s1)"
    by (metis prod.exhaust)
  have t1: "this_pcrs s1 = this_pcrs s \<and> next_pcrs s1 = next_pcrs s"
    using t table_loop_facts [of "emit FinalColumns (emit FinalHeader s)" w c1 s1]
    by (auto split: if_splits)
  obtain c2 s2 where wl: "write_loop (s1\<lparr>written := Some (the (output_arg a), [])\<rparr>) w = (c2, s2)"
    by (metis prod.exhaust)
  note wf = write_loop_facts [OF wl]
  from rm t t1 wl wf show ?thesis
    unfolding report_mode_def
    by (cases c1) (auto split: if_splits option.splits)
qed

lemma run_from_init:
  assumes "run_events E a va w init_st evs = (c, s)"
  shows "(this_pcrs s i \<noteq> None \<longleftrightarrow> 0 \<le> i \<and> i < 24)"
    and "(next_pcrs s i \<noteq> None \<longleftrightarrow> 0 \<le> i \<and> i < 24)"
    and "written s = None" and "no_final_table s" and "errors s = 0 \<or> errors s = 1"
    and "c = Go \<or> (c = ExitWith 1 \<and> \<not> verbose a) \<or> (\<exists>x. c = Raise x)"
proof -
  note fr = run_events_frame [OF assms] and fa = run_events_facts [OF assms]
  have d: "dom init_empty_pcrs = {i. 0 \<le> i \<and> i < 24}"
    by (auto simp: init_empty_pcrs_apply dom_def)
  from fr d have "dom (this_pcrs s) = {i. 0 \<le> i \<and> i < 24}" by simp
  then show "(this_pcrs s i \<noteq> None \<longleftrightarrow> 0 \<le> i \<and> i < 24)" by (auto simp: dom_def)
  from fr d have "dom (next_pcrs s) = {i. 0 \<le> i \<and> i < 24}" by simp
  then show "(next_pcrs s i \<noteq> None \<longleftrightarrow> 0 \<le> i \<and> i < 24)" by (auto simp: dom_def)
  from fr show "written s = None" by simp
  from fa show "no_final_table s" by (simp add: no_final_table_def)
  from fa show "errors s = 0 \<or> errors s = 1" by simp
  from fa show "c = Go \<or> (c = ExitWith 1 \<and> \<not> verbose a) \<or> (\<exists>x. c = Raise x)" by simp
qed

lemma main_unfold:
  assumes "wanted_pcrs_of E a = Inr (va, w)"
    and "run_events E a va w init_st (enum_log_entries E (log_path a)) = (c, s)"
  shows "main E a =
     (if c = Go
      then (outcome_of (fst (if compare a then compare_mode E w s else report_mode E a w s)),
            snd (if compare a then compare_mode E w s else report_mode E a w s))
      else (outcome_of c, s))"
  using assms by (cases c) (simp_all add: main_def split: prod.splits)

lemma main_wanted_fails:
  "wanted_pcrs_of E a = Inl x \<Longrightarrow> main E a = (Uncaught x, init_st)"
  by (simp add: main_def)

lemma compare_mode_exit:
  assumes "read_current_pcrs E w = Inr real"
    and "\<forall>i\<in>set w. real i \<noteq> None \<and> this_pcrs s i \<noteq> None"
  shows "fst (compare_mode E w s) =
     ExitWith (if \<exists>i\<in>set w. real i \<noteq> this_pcrs s i then 1 else 0)"
proof -
  define s0 where "s0 = emit CompareColumns ((emit CompareHeader s)\<lparr>errors := 0\<rparr>)"
  have s0: "this_pcrs s0 = this_pcrs s" "errors s0 = 0" by (simp_all add: s0_def)
  obtain c1 s1 where l: "compare_loop real s0 w = (c1, s1)" by (metis prod.exhaust)
  have "c1 = Go" using compare_loop_Go [of w real s0] assms(2) s0 l by simp
  with l have cnt: "errors s1 = int (length (filter (\<lambda>i. real i \<noteq> this_pcrs s i) w))"
    using compare_loop_count [of real s0 w s1] s0 by simp
  have "(errors s1 > 0) \<longleftrightarrow> (\<exists>i\<in>set w. real i \<noteq> this_pcrs s i)"
    unfolding cnt by (auto simp: filter_empty_conv)
  with l \<open>c1 = Go\<close> assms(1) show ?thesis
    by (simp add: compare_mode_def Let_def s0_def)
qed

lemma compare_mode_tally:
  "fst (compare_mode E w (s\<lparr>errors := e\<rparr>)) = fst (compare_mode E w s)"
proof -
  have eq: "(emit CompareHeader (s\<lparr>errors := e\<rparr>))\<lparr>errors := 0\<rparr> = (emit CompareHeader s)\<lparr>errors := 0\<rparr>"
    by (simp add: emit_def)
  show ?thesis
    unfolding compare_mode_def Let_def eq
    by (simp split: sum.splits)
qed

lemma env_with_log_simps [simp]:
  "enum_log_entries (env_with_log evs) p = evs"
  "sha1 (env_with_log evs) = toy_hash"
  "parse_efi_bsa_event (env_with_log evs) d = Inr d"
  "device_path_to_unix_path (env_with_log evs) dp =
     (if dp = [] then Inl (OtherException ''no file path'') else Inr (Some ''/boot/loader.efi''))"
  "hash_pecoff (env_with_log evs) q alg = Inr (replicate 20 0x33)"
  "loader_get_next_cmdline (env_with_log evs) q = Inl FileNotFoundError"
  "read_current_pcrs (env_with_log evs) idxs = Inr init_empty_pcrs"
  "read_current_pcr (env_with_log evs) idx = Inr (replicate 20 0xAB)"
  "py_int (env_with_log evs) str =
     (if str = ''0'' then Inr 0 else if str = ''17'' then Inr 17 else Inl ValueError)"
  "open_wb (env_with_log evs) p' = None"
  by (simp_all add: env_with_log_def demo_env_def)

lemma wanted_demo:
  "wanted_pcrs_of (env_with_log evs) args_compare_verbose = Inr (False, [0])"
  "wanted_pcrs_of (env_with_log evs) args_verbose = Inr (False, [0])"
  "wanted_pcrs_of (env_with_log evs) args_output = Inr (False, [17, 0])"
  by (simp_all add: wanted_pcrs_of_def args_compare_verbose_def args_verbose_def
      args_output_def)

lemma unresolved_step_verbose:
  "verbose a \<Longrightarrow> 4 \<notin> set w \<Longrightarrow>
   process_event (env_with_log evs) a False w s entry_unresolved =
     (ContinueLoop, emit NoLinuxPath
        ((emit (PrintException (OtherException ''no file path'')) s)\<lparr>errors := 1\<rparr>))"
  by (simp add: process_event_def bsa_block_def entry_unresolved_def VIRTUAL_PCR_def Let_def)

lemma report_mode_exit:
  assumes "\<forall>x. fst (report_mode E a w s) \<noteq> Raise x"
  shows "fst (report_mode E a w s) = (if errors s \<noteq> 0 then ExitWith 1 else Go)"
proof -
  obtain c1 s1 where t: "(if verbose a \<or> \<not> truthy (output_arg a)
            then table_loop (emit FinalColumns (emit FinalHeader s)) w
            else (Go, s)) = (c1, s1)"
    by (metis prod.exhaust)
  have t1: "errors s1 = errors s \<and> (c1 = Go \<or> c1 = Raise KeyError)"
    using t table_loop_facts [of "emit FinalColumns (emit FinalHeader s)" w c1 s1]
    by (auto split: if_splits)
  obtain c2 s2 where wl: "write_loop (s1\<lparr>written := Some (the (output_arg a), [])\<rparr>) w = (c2, s2)"
    by (metis prod.exhaust)
  note wf = write_loop_facts [OF wl]
  have rm: "report_mode E a w s =
     (case c1 of
        Go \<Rightarrow>
          (if errors s1 \<noteq> 0 then (ExitWith 1, emit StderrFatalErrors s1)
           else if truthy (output_arg a) then
             (case open_wb E (the (output_arg a)) of
                Some x \<Rightarrow> (Raise x, s1)
              | None \<Rightarrow> (c2, s2))
           else (Go, s1))
      | _ \<Rightarrow> (c1, s1))"
    unfolding report_mode_def t by (cases c1) (simp_all add: wl split: option.splits)
  from t1 have "c1 = Raise KeyError \<or> c1 = Go" by blast
  then show ?thesis
  proof
    assume "c1 = Raise KeyError"
    with rm assms show ?thesis by simp
  next
    assume g: "c1 = Go"
    show ?thesis
    proof (cases "errors s \<noteq> 0")
      case True
      with rm g t1 show ?thesis by simp
    next
      case False
      show ?thesis
      proof (cases "truthy (output_arg a)")
        case nt: False
        with rm g t1 False show ?thesis by simp
      next
        case True
        show ?thesis
        proof (cases "open_wb E (the (output_arg a))")
          case (Some x)
          with rm g t1 False True assms show ?thesis by simp
        next
          case None
          with rm g t1 False True have "fst (report_mode E a w s) = c2" by simp
          with wf assms False show ?thesis by auto
        qed
      qed
    qed
  qed
qed

lemma compare_mode_exit_general:
  assumes "\<forall>x. fst (compare_mode E w s) \<noteq> Raise x"
  shows "\<exists>real. read_current_pcrs E w = Inr real
       \<and> fst (compare_mode E w s) =
           ExitWith (if \<exists>i\<in>set w. real i \<noteq> this_pcrs s i then 1 else 0)"
proof (cases "read_current_pcrs E w")
  case (Inl x)
  with assms show ?thesis by (simp add: compare_mode_def Let_def)
next
  case (Inr real)
  define s0 where "s0 = emit CompareColumns ((emit CompareHeader s)\<lparr>errors := 0\<rparr>)"
  have s0: "this_pcrs s0 = this_pcrs s" "errors s0 = 0" by (simp_all add: s0_def)
  obtain c1 s1 where l: "compare_loop real s0 w = (c1, s1)" by (metis prod.exhaust)
  have cm: "compare_mode E w s =
      (case c1 of Go \<Rightarrow> (ExitWith (if errors s1 > 0 then 1 else 0), s1) | _ \<Rightarrow> (c1, s1))"
    using Inr l by (cases c1) (simp_all add: compare_mode_def Let_def s0_def)
  from compare_loop_facts [OF l] have "c1 = Go \<or> c1 = Raise KeyError" by simp
  with cm assms have g: "c1 = Go" by auto
  with l have cnt: "errors s1 = int (length (filter (\<lambda>i. real i \<noteq> this_pcrs s i) w))"
    using compare_loop_count [of real s0 w s1] s0 by simp
  have "(errors s1 > 0) \<longleftrightarrow> (\<exists>i\<in>set w. real i \<noteq> this_pcrs s i)"
    unfolding cnt by (auto simp: filter_empty_conv)
  with cm g Inr show ?thesis by simp
qed

lemma report_mode_output:
  assumes "\<forall>i\<in>set w. this_pcrs s i \<noteq> None \<and> next_pcrs s i \<noteq> None"
    and "errors s = 0" and "output_arg a = Some path" and "path \<noteq> []"
    and "open_wb E path = None"
  shows "fst (report_mode E a w s) = Go
       \<and> written (snd (report_mode E a w s))
           = Some (path, concat (map (\<lambda>i. the (next_pcrs s i)) w))"
proof -
  obtain c1 s1 where t: "(if verbose a \<or> \<not> truthy (output_arg a)
            then table_loop (emit FinalColumns (emit FinalHeader s)) w
            else (Go, s)) = (c1, s1)"
    by (metis prod.exhaust)
  have t1: "this_pcrs s1 = this_pcrs s \<and> next_pcrs s1 = next_pcrs s \<and> errors s1 = errors s"
    using t table_loop_facts [of "emit FinalColumns (emit FinalHeader s)" w c1 s1]
    by (auto split: if_splits)
  have "fst (table_loop (emit FinalColumns (emit FinalHeader s)) w) = Go"
    by (rule table_loop_Go) (use assms(1) in simp)
  with t have g: "c1 = Go" by (auto split: if_splits)
  define s2 where "s2 = s1\<lparr>written := Some (path, [])\<rparr>"
  have "\<forall>i\<in>set w. next_pcrs s2 i \<noteq> None" "written s2 = Some (path, [])"
    using assms(1) t1 by (simp_all add: s2_def)
  from write_loop_Go [OF this] have wl: "write_loop s2 w =
      (Go, s2\<lparr>written := Some (path, concat (map (\<lambda>i. the (next_pcrs s i)) w))\<rparr>)"
    using t1 by (simp add: s2_def)
  have "report_mode E a w s = write_loop s2 w"
    unfolding report_mode_def t using g t1 assms(2-5) by (simp add: s2_def)
  with wl show ?thesis by simp
qed

lemma args_output_simps:
  "\<not> compare args_output" "\<not> verbose args_output" "output_arg args_output = Some ''pcrs.bin''"
  "log_path args_output = None"
  by (simp_all add: args_output_def)

lemma unresolved_step:
  assumes "event_type ev = EFI_BOOT_SERVICES_APPLICATION"
    and "pcr_extend_value ev = Some L" and "pcr_idx ev \<noteq> VIRTUAL_PCR"
    and "parse_efi_bsa_event E (event_data ev) = Inr dp"
    and "device_path_to_unix_path E dp = r"
    and "case r of Inl x \<Rightarrow> True | Inr p \<Rightarrow> \<not> truthy p"
  shows "fst (process_event E a va w s ev) = (if verbose a then ContinueLoop else ExitWith 1)"
    and "errors (snd (process_event E a va w s ev)) = (case r of Inl x \<Rightarrow> 1 | Inr p \<Rightarrow> errors s)"
    and "this_pcrs (snd (process_event E a va w s ev)) = this_pcrs s"
    and "next_pcrs (snd (process_event E a va w s ev)) = next_pcrs s"
    and "written (snd (process_event E a va w s ev)) = written s"
    and "last_efi_binary (snd (process_event E a va w s ev)) = last_efi_binary s"
  using assms
  by (cases r; simp add: process_event_def bsa_block_def Let_def)+

lemma demo_args_simps:
  "\<not> verbose demo_args" "\<not> compare demo_args" "log_path demo_args = None"
  "wanted_pcrs_of E demo_args = Inr (True, map int [0..<24])"
  by (simp_all add: demo_args_def wanted_pcrs_of_def NUM_PCRS_def)


lemma fold_block_step:
  "fold_block E vp s ev t n = (c, s') \<Longrightarrow>
     (this_pcrs s' = this_pcrs s \<or> one_extend (sha1 E) (this_pcrs s) (pcr_idx ev) (this_pcrs s'))
     \<and> (next_pcrs s' = next_pcrs s \<or> one_extend (sha1 E) (next_pcrs s) (pcr_idx ev) (next_pcrs s'))"
  by (auto simp: fold_block_def Let_def extend_def extend_pcr_with_hash_def one_extend_def
      split: if_splits sum.splits prod.splits option.splits ctl.splits)

lemma process_event_step:
  "(this_pcrs (snd (process_event E a va w s ev)) = this_pcrs s
      \<or> one_extend (sha1 E) (this_pcrs s) (pcr_idx ev) (this_pcrs (snd (process_event E a va w s ev))))
   \<and> (next_pcrs (snd (process_event E a va w s ev)) = next_pcrs s
      \<or> one_extend (sha1 E) (next_pcrs s) (pcr_idx ev) (next_pcrs (snd (process_event E a va w s ev))))"
proof (cases "pcr_extend_value ev")
  case None
  then show ?thesis by (simp add: process_event_def Let_def)
next
  case (Some t)
  define vp where "vp = (verbose a \<and> (va \<or> pcr_idx ev \<in> set w))"
  define s0 where "s0 = (if vp then emit (ShowLogEntry ev) s else s)"
  have s0: "this_pcrs s0 = this_pcrs s" "next_pcrs s0 = next_pcrs s"
    by (simp_all add: s0_def)
  obtain c1 s1 v1 where b: "bsa_block E a vp s0 ev t t = (c1, s1, v1)"
    by (metis prod_cases3)
  note bp = bsa_block_pcrs [OF b]
  obtain c2 s2 v2 where i: "ipl_block E a w s1 ev v1 = (c2, s2, v2)"
    by (metis prod_cases3)
  note ip = ipl_block_pcrs [OF i]
  obtain c3 s3 where f: "fold_block E vp s2 ev t v2 = (c3, s3)"
    by (metis prod.exhaust)
  note fs = fold_block_step [OF f]
  show ?thesis
  proof (cases "pcr_idx ev = VIRTUAL_PCR")
    case True
    with Some show ?thesis by (simp add: process_event_def Let_def)
  next
    case False
    from Some False b i f have res:
      "process_event E a va w s ev =
         (if c1 = Go then (if c2 = Go then (c3, s3) else (c2, s2)) else (c1, s1))"
      by (cases c1; cases c2) (auto simp: process_event_def Let_def vp_def s0_def)
    from res bp ip fs s0 show ?thesis by auto
  qed
qed

lemma non_divergent_step:
  assumes "non_divergent_fold E w s ev" and "pcr_extend_value ev = Some L"
    and "this_pcrs s (pcr_idx ev) = Some t" and "next_pcrs s (pcr_idx ev) = Some n"
  shows "fst (process_event E a va w s ev) = Go"
    and "this_pcrs (snd (process_event E a va w s ev))
           = (this_pcrs s)(pcr_idx ev \<mapsto> sha1 E (t @ L))"
    and "next_pcrs (snd (process_event E a va w s ev))
           = (next_pcrs s)(pcr_idx ev \<mapsto> sha1 E (n @ L))"
    and "last_efi_binary (snd (process_event E a va w s ev)) = last_efi_binary s"
  using assms
  by (simp_all add: non_divergent_fold_def process_event_def bsa_block_other_type ipl_block_def
      ipl_try_def fold_block_def extend_def extend_pcr_with_hash_def Let_def
      split: if_splits)

lemma main_pcrs:
  assumes "wanted_pcrs_of E a = Inr (va, w)"
  shows "this_pcrs (snd (main E a))
           = this_pcrs (snd (run_events E a va w init_st (enum_log_entries E (log_path a))))"
    and "next_pcrs (snd (main E a))
           = next_pcrs (snd (run_events E a va w init_st (enum_log_entries E (log_path a))))"
proof -
  obtain c s where r: "run_events E a va w init_st (enum_log_entries E (log_path a)) = (c, s)"
    by (metis prod.exhaust)
  note mu = main_unfold [OF assms r]
  obtain c1 s1 where cm: "compare_mode E w s = (c1, s1)" by (metis prod.exhaust)
  obtain c2 s2 where rm: "report_mode E a w s = (c2, s2)" by (metis prod.exhaust)
  note cf = compare_mode_facts [OF cm] and rf = report_mode_facts [OF rm]
  from mu r cm rm cf rf
  show "this_pcrs (snd (main E a))
           = this_pcrs (snd (run_events E a va w init_st (enum_log_entries E (log_path a))))"
    by (auto split: if_splits)
  from mu r cm rm cf rf
  show "next_pcrs (snd (main E a))
           = next_pcrs (snd (run_events E a va w init_st (enum_log_entries E (log_path a))))"
    by (auto split: if_splits)
qed

lemma main_chain:
  assumes "wanted_pcrs_of E a = Inr (va, w)"
    and "enum_log_entries E (log_path a) = [e1, e2]"
    and "pcr_idx e1 = 0" and "pcr_idx e2 = 0"
    and "pcr_extend_value e1 = Some A" and "pcr_extend_value e2 = Some B"
    and "non_divergent_fold E w init_st e1" and "non_divergent_fold E w init_st e2"
  shows "this_pcrs (snd (main E a)) 0 = Some (sha1 E (sha1 E (replicate 20 0 @ A) @ B))
       \<and> next_pcrs (snd (main E a)) 0 = Some (sha1 E (sha1 E (replicate 20 0 @ A) @ B))"
proof -
  have i0: "this_pcrs init_st (pcr_idx e1) = Some (replicate 20 0)"
    "next_pcrs init_st (pcr_idx e1) = Some (replicate 20 0)"
    by (simp_all add: assms(3) init_empty_pcrs_apply)
  define s1 where "s1 = snd (process_event E a va w init_st e1)"
  note st1 = non_divergent_step [OF assms(7) assms(5) i0, of a va, folded s1_def]
  have p1: "process_event E a va w init_st e1 = (Go, s1)"
    using st1(1) by (simp add: s1_def prod_eq_iff)
  have nd2: "non_divergent_fold E w s1 e2"
    using assms(8) st1(4) by (auto simp: non_divergent_fold_def split: if_splits)
  have i1: "this_pcrs s1 (pcr_idx e2) = Some (sha1 E (replicate 20 0 @ A))"
    "next_pcrs s1 (pcr_idx e2) = Some (sha1 E (replicate 20 0 @ A))"
    using st1(2,3) assms(3,4) by simp_all
  define s2 where "s2 = snd (process_event E a va w s1 e2)"
  note st2 = non_divergent_step [OF nd2 assms(6) i1, of a va, folded s2_def]
  have p2: "process_event E a va w s1 e2 = (Go, s2)"
    using st2(1) by (simp add: s2_def prod_eq_iff)
  have r: "run_events E a va w init_st (enum_log_entries E (log_path a)) = (Go, s2)"
    using assms(2) p1 p2 by simp
  from main_pcrs [OF assms(1)] r st2(2,3) assms(4) show ?thesis by simp
qed

lemma lib_bsa_block_pcrs:
  "lib_bsa_block E s ev t v = (c, s', v') \<Longrightarrow>
     this_pcrs s' = this_pcrs s \<and> next_pcrs s' = next_pcrs s"
  by (auto simp: lib_bsa_block_def Let_def quiet_def
      split: if_splits sum.splits option.splits)

lemma lib_bsa_block_other_type:
  "event_type ev \<noteq> EFI_BOOT_SERVICES_APPLICATION \<Longrightarrow> lib_bsa_block E s ev t v = (Go, s, v)"
  by (simp add: lib_bsa_block_def)

lemma lib_process_event_step:
  "(this_pcrs (snd (lib_process_event E s ev)) = this_pcrs s
      \<or> one_extend (sha1 E) (this_pcrs s) (pcr_idx ev) (this_pcrs (snd (lib_process_event E s ev))))
   \<and> (next_pcrs (snd (lib_process_event E s ev)) = next_pcrs s
      \<or> one_extend (sha1 E) (next_pcrs s) (pcr_idx ev) (next_pcrs (snd (lib_process_event E s ev))))"
proof (cases "pcr_extend_value ev")
  case None
  then show ?thesis by (simp add: lib_process_event_def Let_def)
next
  case (Some t)
  define s0 where "s0 = (if \<not> quiet then emit (ShowLogEntry ev) s else s)"
  have s0: "this_pcrs s0 = this_pcrs s" "next_pcrs s0 = next_pcrs s"
    by (simp_all add: s0_def)
  obtain c1 s1 v1 where b: "lib_bsa_block E s0 ev t t = (c1, s1, v1)"
    by (metis prod_cases3)
  note bp = lib_bsa_block_pcrs [OF b]
  show ?thesis
  proof (cases "c1 = Go")
    case False
    with Some b bp s0 show ?thesis
      by (cases c1) (auto simp: lib_process_event_def Let_def s0_def)
  next
    case True
    with Some b bp s0 show ?thesis
      by (auto simp: lib_process_event_def Let_def s0_def lib_extend_def one_extend_def
          split: option.splits)
  qed
qed

lemma lib_plain_step:
  assumes "event_type ev \<noteq> EFI_BOOT_SERVICES_APPLICATION" and "pcr_extend_value ev = Some L"
    and "this_pcrs s (pcr_idx ev) = Some t" and "next_pcrs s (pcr_idx ev) = Some n"
  shows "fst (lib_process_event E s ev) = Go"
    and "this_pcrs (snd (lib_process_event E s ev))
           = (this_pcrs s)(pcr_idx ev \<mapsto> sha1 E (t @ L))"
    and "next_pcrs (snd (lib_process_event E s ev))
           = (next_pcrs s)(pcr_idx ev \<mapsto> sha1 E (n @ L))"
  using assms
  by (simp_all add: lib_process_event_def lib_bsa_block_other_type lib_extend_def Let_def)

lemma lib_pcr8_hack_pcrs:
  "j \<noteq> 8 \<Longrightarrow> this_pcrs (snd (lib_pcr8_hack E s)) j = this_pcrs s j
     \<and> next_pcrs (snd (lib_pcr8_hack E s)) j = next_pcrs s j"
  by (simp add: lib_pcr8_hack_def split: option.splits sum.splits)

lemma lib_output_pcrs:
  "this_pcrs (snd (lib_output E s)) = this_pcrs s \<and> next_pcrs (snd (lib_output E s)) = next_pcrs s"
proof -
  obtain c1 s1 where t: "table_loop (emit FinalHeader s) (map int [0..<NUM_PCRS]) = (c1, s1)"
    by (metis prod.exhaust)
  from table_loop_facts [OF t] t show ?thesis
    by (simp add: lib_output_def quiet_def Let_def)
qed

lemma lib_main_pcrs:
  assumes "j \<noteq> 8"
  shows "this_pcrs (snd (lib_main E)) j
           = this_pcrs (snd (lib_run_events E lib_init_st (enum_log_entries E None))) j
       \<and> next_pcrs (snd (lib_main E)) j
           = next_pcrs (snd (lib_run_events E lib_init_st (enum_log_entries E None))) j"
proof -
  obtain c s where r: "lib_run_events E lib_init_st (enum_log_entries E None) = (c, s)"
    by (metis prod.exhaust)
  obtain c1 s1 where h: "lib_pcr8_hack E s = (c1, s1)" by (metis prod.exhaust)
  obtain c2 s2 where ou: "lib_output E s1 = (c2, s2)" by (metis prod.exhaust)
  from lib_pcr8_hack_pcrs [OF assms, of E s] h
  have hp: "this_pcrs s1 j = this_pcrs s j \<and> next_pcrs s1 j = next_pcrs s j" by simp
  from lib_output_pcrs [of E s1] ou
  have op: "this_pcrs s2 = this_pcrs s1 \<and> next_pcrs s2 = next_pcrs s1" by simp
  from r h ou hp op show ?thesis
    by (cases c; cases c1) (simp_all add: lib_main_def)
qed

lemma lib_main_chain:
  assumes "enum_log_entries E None = [e1, e2]"
    and "pcr_idx e1 = 0" and "pcr_idx e2 = 0"
    and "pcr_extend_value e1 = Some A" and "pcr_extend_value e2 = Some B"
    and "event_type e1 \<noteq> EFI_BOOT_SERVICES_APPLICATION"
    and "event_type e2 \<noteq> EFI_BOOT_SERVICES_APPLICATION"
  shows "this_pcrs (snd (lib_main E)) 0 = Some (sha1 E (sha1 E (replicate 20 0 @ A) @ B))
       \<and> next_pcrs (snd (lib_main E)) 0 = Some (sha1 E (sha1 E (replicate 20 0 @ A) @ B))"
proof -
  have i0: "this_pcrs lib_init_st (pcr_idx e1) = Some (replicate 20 0)"
    "next_pcrs lib_init_st (pcr_idx e1) = Some (replicate 20 0)"
    by (simp_all add: assms(2) lib_init_st_pcrs init_empty_pcrs_apply)
  define s1 where "s1 = snd (lib_process_event E lib_init_st e1)"
  note st1 = lib_plain_step [OF assms(6) assms(4) i0, of E, folded s1_def]
  have p1: "lib_process_event E lib_init_st e1 = (Go, s1)"
    using st1(1) by (simp add: s1_def prod_eq_iff)
  have i1: "this_pcrs s1 (pcr_idx e2) = Some (sha1 E (replicate 20 0 @ A))"
    "next_pcrs s1 (pcr_idx e2) = Some (sha1 E (replicate 20 0 @ A))"
    using st1(2,3) assms(2,3) by simp_all
  define s2 where "s2 = snd (lib_process_event E s1 e2)"
  note st2 = lib_plain_step [OF assms(7) assms(5) i1, of E, folded s2_def]
  have p2: "lib_process_event E s1 e2 = (Go, s2)"
    using st2(1) by (simp add: s2_def prod_eq_iff)
  have r: "lib_run_events E lib_init_st (enum_log_entries E None) = (Go, s2)"
    using assms(1) p1 p2 by simp
  have "(0::int) \<noteq> 8" by simp
  from lib_main_pcrs [OF this, of E] r st2(2,3) assms(3) show ?thesis by simp
qed

lemma lib_main_empty_log:
  assumes "enum_log_entries E None = []" and "read_current_pcr E 8 = Inr live"
  shows "this_pcrs (snd (lib_main E)) 8 = Some live \<and> next_pcrs (snd (lib_main E)) 8 = Some live"
proof -
  have i8: "this_pcrs lib_init_st 8 = Some (replicate 20 0)"
    by (simp add: lib_init_st_pcrs init_empty_pcrs_apply)
  have h: "lib_pcr8_hack E lib_init_st =
      (Go, lib_init_st\<lparr>this_pcrs := (this_pcrs lib_init_st)(8 \<mapsto> live),
                       next_pcrs := (next_pcrs lib_init_st)(8 \<mapsto> live)\<rparr>)"
    by (simp add: lib_pcr8_hack_def i8 assms(2) PCR_SIZE_def)
  obtain c2 s2 where ou: "lib_output E (lib_init_st\<lparr>this_pcrs := (this_pcrs lib_init_st)(8 \<mapsto> live),
                       next_pcrs := (next_pcrs lib_init_st)(8 \<mapsto> live)\<rparr>) = (c2, s2)"
    by (metis prod.exhaust)
  from lib_output_pcrs [of E "lib_init_st\<lparr>this_pcrs := (this_pcrs lib_init_st)(8 \<mapsto> live),
                       next_pcrs := (next_pcrs lib_init_st)(8 \<mapsto> live)\<rparr>"] ou
  have "this_pcrs s2 8 = Some live \<and> next_pcrs s2 8 = Some live" by simp
  with assms(1) h ou show ?thesis by (simp add: lib_main_def)
qed


lemma report_mode_tally_written:
  assumes "errors s \<noteq> 0"
  shows "written (snd (report_mode E a w s)) = written s"
proof -
  obtain c1 s1 where t: "(if verbose a \<or> \<not> truthy (output_arg a)
            then table_loop (emit FinalColumns (emit FinalHeader s)) w
            else (Go, s)) = (c1, s1)"
    by (metis prod.exhaust)
  have t1: "errors s1 = errors s \<and> written s1 = written s"
    using t table_loop_facts [of "emit FinalColumns (emit FinalHeader s)" w c1 s1]
    by (auto split: if_splits)
  show ?thesis
    unfolding report_mode_def t using t1 assms by (cases c1) simp_all
qed

lemma map_raise_map:
  "map_raise f xs = Inr ys \<Longrightarrow> map f xs = map Inr ys"
  by (induction xs arbitrary: ys) (auto split: sum.splits)

lemma split_comma_nonempty: "split_comma s \<noteq> []"
  by (induction s) (auto split: list.splits)

lemma join_comma_Cons: "join_comma ((c # f) # fs) = c # join_comma (f # fs)"
  by (cases fs) simp_all

lemma join_split_comma: "join_comma (split_comma s) = s"
proof (induction s)
  case Nil
  then show ?case by simp
next
  case (Cons c cs)
  obtain f fs where sp: "split_comma cs = f # fs"
    using split_comma_nonempty [of cs] by (cases "split_comma cs") auto
  with Cons show ?case by (simp add: join_comma_Cons)
qed

lemma split_comma_fields: "\<forall>f\<in>set (split_comma s). CHR '','' \<notin> set f"
  by (induction s) (auto split: list.splits)

lemma wanted_pcr_list:
  assumes "wanted_pcrs_of E a = Inr (va, w)"
  shows "if truthy (pcr_list a)
         then map (py_int E) (split_comma (the (pcr_list a))) = map Inr w
         else w = map int [0..<24]"
  using assms
  by (auto simp: wanted_pcrs_of_def NUM_PCRS_def map_raise_map split: sum.splits if_splits)

lemma lib_pcr8_hack_banks:
  "this_pcrs (snd (lib_pcr8_hack E s)) =
     (if this_pcrs s 8 = Some (replicate 20 0)
      then (case read_current_pcr E 8 of
              Inl x \<Rightarrow> this_pcrs s | Inr live \<Rightarrow> (this_pcrs s)(8 \<mapsto> live))
      else this_pcrs s)"
  "next_pcrs (snd (lib_pcr8_hack E s)) =
     (if this_pcrs s 8 = Some (replicate 20 0)
      then (case read_current_pcr E 8 of
              Inl x \<Rightarrow> next_pcrs s | Inr live \<Rightarrow> (next_pcrs s)(8 \<mapsto> live))
      else next_pcrs s)"
  by (simp_all add: lib_pcr8_hack_def PCR_SIZE_def split: option.splits sum.splits)

lemma lib_main_banks:
  "this_pcrs (snd (lib_main E)) =
     (if fst (lib_run_events E lib_init_st (enum_log_entries E None)) = Go
         \<and> this_pcrs (snd (lib_run_events E lib_init_st (enum_log_entries E None))) 8
             = Some (replicate 20 0)
      then (case read_current_pcr E 8 of
              Inl x \<Rightarrow> this_pcrs (snd (lib_run_events E lib_init_st (enum_log_entries E None)))
            | Inr live \<Rightarrow>
                (this_pcrs (snd (lib_run_events E lib_init_st (enum_log_entries E None))))
                  (8 \<mapsto> live))
      else this_pcrs (snd (lib_run_events E lib_init_st (enum_log_entries E None))))"
  "next_pcrs (snd (lib_main E)) =
     (if fst (lib_run_events E lib_init_st (enum_log_entries E None)) = Go
         \<and> this_pcrs (snd (lib_run_events E lib_init_st (enum_log_entries E None))) 8
             = Some (replicate 20 0)
      then (case read_current_pcr E 8 of
              Inl x \<Rightarrow> next_pcrs (snd (lib_run_events E lib_init_st (enum_log_entries E None)))
            | Inr live \<Rightarrow>
                (next_pcrs (snd (lib_run_events E lib_init_st (enum_log_entries E None))))
                  (8 \<mapsto> live))
      else next_pcrs (snd (lib_run_events E lib_init_st (enum_log_entries E None))))"
proof -
  obtain c s where r: "lib_run_events E lib_init_st (enum_log_entries E None) = (c, s)"
    by (metis prod.exhaust)
  obtain c1 s1 where h: "lib_pcr8_hack E s = (c1, s1)" by (metis prod.exhaust)
  obtain c2 s2 where ou: "lib_output E s1 = (c2, s2)" by (metis prod.exhaust)
  from lib_output_pcrs [of E s1] ou
  have op: "this_pcrs s2 = this_pcrs s1" "next_pcrs s2 = next_pcrs s1" by simp_all
  from lib_pcr8_hack_banks [of E s] h
  have hb: "this_pcrs s1 =
     (if this_pcrs s 8 = Some (replicate 20 0)
      then (case read_current_pcr E 8 of
              Inl x \<Rightarrow> this_pcrs s | Inr live \<Rightarrow> (this_pcrs s)(8 \<mapsto> live))
      else this_pcrs s)"
    "next_pcrs s1 =
     (if this_pcrs s 8 = Some (replicate 20 0)
      then (case read_current_pcr E 8 of
              Inl x \<Rightarrow> next_pcrs s | Inr live \<Rightarrow> (next_pcrs s)(8 \<mapsto> live))
      else next_pcrs s)"
    by simp_all
  have m: "snd (lib_main E) = (if c = Go then (if c1 = Go then s2 else s1) else s)"
    using r h ou by (cases c; cases c1) (simp_all add: lib_main_def)
  have e: "c = Go \<Longrightarrow> c1 \<noteq> Go \<Longrightarrow> this_pcrs s1 = this_pcrs s \<and> next_pcrs s1 = next_pcrs s"
    using h by (auto simp: lib_pcr8_hack_def split: option.splits sum.splits if_splits)
  show "this_pcrs (snd (lib_main E)) =
     (if fst (lib_run_events E lib_init_st (enum_log_entries E None)) = Go
         \<and> this_pcrs (snd (lib_run_events E lib_init_st (enum_log_entries E None))) 8
             = Some (replicate 20 0)
      then (case read_current_pcr E 8 of
              Inl x \<Rightarrow> this_pcrs (snd (lib_run_events E lib_init_st (enum_log_entries E None)))
            | Inr live \<Rightarrow>
                (this_pcrs (snd (lib_run_events E lib_init_st (enum_log_entries E None))))
                  (8 \<mapsto> live))
      else this_pcrs (snd (lib_run_events E lib_init_st (enum_log_entries E None))))"
    unfolding m r fst_conv snd_conv using op hb(1) e by (auto split: sum.splits)
  show "next_pcrs (snd (lib_main E)) =
     (if fst (lib_run_events E lib_init_st (enum_log_entries E None)) = Go
         \<and> this_pcrs (snd (lib_run_events E lib_init_st (enum_log_entries E None))) 8
             = Some (replicate 20 0)
      then (case read_current_pcr E 8 of
              Inl x \<Rightarrow> next_pcrs (snd (lib_run_events E lib_init_st (enum_log_entries E None)))
            | Inr live \<Rightarrow>
                (next_pcrs (snd (lib_run_events E lib_init_st (enum_log_entries E None))))
                  (8 \<mapsto> live))
      else next_pcrs (snd (lib_run_events E lib_init_st (enum_log_entries E None))))"
    unfolding m r fst_conv snd_conv using op hb(2) e by (auto split: sum.splits)
qed

lemma wanted_demo2:
  "wanted_pcrs_of (env_with_log evs) args_verbose_output = Inr (False, [0])"
  "wanted_pcrs_of (env_with_log evs) args_compare_strict = Inr (False, [0])"
  by (simp_all add: wanted_pcrs_of_def args_verbose_output_def args_compare_strict_def)

lemma unresolved_step_strict:
  "\<not> verbose a \<Longrightarrow> 4 \<notin> set w \<Longrightarrow>
   process_event (env_with_log evs) a False w s entry_unresolved =
     (ExitWith 1, emit StderrUnusualBoot
        ((emit (PrintException (OtherException ''no file path'')) s)\<lparr>errors := 1\<rparr>))"
  by (simp add: process_event_def bsa_block_def entry_unresolved_def VIRTUAL_PCR_def Let_def)

lemma replicate_20:
  "replicate 20 x = [x, x, x, x, x, x, x, x, x, x, x, x, x, x, x, x, x, x, x, x]"
  by (simp add: numeral_eq_Suc)

lemma toy_hash_pcr8:
  "toy_hash (replicate 20 0 @ replicate 20 0x55) = replicate 20 137"
  unfolding toy_hash_def replicate_20 by simp

section \<open>The claims\<close>

text \<open>C2. Before any log entry is folded, the current and the predicted bank are the
  same map; it is defined exactly on the 24 indices 0 to 23, and gives 20 bytes of
  0xFF at the indices 17 to 22 and 20 bytes of 0x00 at every other index. This holds
  for the initial state of both programs.\<close>

theorem reset_values:
  "this_pcrs init_st = next_pcrs init_st \<and> this_pcrs lib_init_st = next_pcrs lib_init_st
   \<and> this_pcrs init_st i =
       (if 0 \<le> i \<and> i < 24
        then Some (replicate 20 (if 17 \<le> i \<and> i \<le> 22 then 0xFF else 0)) else None)
   \<and> this_pcrs lib_init_st i =
       (if 0 \<le> i \<and> i < 24
        then Some (replicate 20 (if 17 \<le> i \<and> i \<le> 22 then 0xFF else 0)) else None)"
  by (simp add: lib_init_st_pcrs init_empty_pcrs_apply)

theorem reset_values_witness:
  "this_pcrs init_st 17 = Some (replicate 20 0xFF) \<and> next_pcrs init_st 17 = Some (replicate 20 0xFF)
   \<and> this_pcrs lib_init_st 17 = Some (replicate 20 0xFF)"
  using reset_values [of 17] by (simp del: init_st_simps) metis

text \<open>C6. Processing an entry that carries no extend digest, or whose register index is
  the virtual sentinel, or whose type is \<^verbatim>\<open>NO_ACTION\<close>, changes neither the current
  nor the predicted bank, whatever the state, the arguments and the collaborators.\<close>

theorem skipped_entries_unchanged:
  assumes "pcr_extend_value ev = None \<or> pcr_idx ev = VIRTUAL_PCR \<or> event_type ev = NO_ACTION"
  shows "this_pcrs (snd (process_event E a va w s ev)) = this_pcrs s
       \<and> next_pcrs (snd (process_event E a va w s ev)) = next_pcrs s"
proof (cases "pcr_extend_value ev = None \<or> pcr_idx ev = VIRTUAL_PCR")
  case True
  then show ?thesis
    by (auto simp: process_event_def Let_def split: option.splits)
next
  case False
  with assms have na: "event_type ev = NO_ACTION" by blast
  from False obtain t where t: "pcr_extend_value ev = Some t" by auto
  show ?thesis
    using False na t
    by (simp add: process_event_def Let_def bsa_block_other_type ipl_block_other_type
        fold_block_def split: option.splits)
qed

theorem skipped_entries_unchanged_witness:
  "this_pcrs (snd (process_event demo_env demo_args True [0] init_st entry_no_action))
     = this_pcrs init_st
   \<and> next_pcrs (snd (process_event demo_env demo_args True [0] init_st entry_no_action))
     = next_pcrs init_st"
  using skipped_entries_unchanged [of entry_no_action demo_env demo_args True "[0]" init_st]
  by (simp add: entry_no_action_def)

text \<open>C3. An \<^verbatim>\<open>EFI_BOOT_SERVICES_APPLICATION\<close> entry that passes the filter (it carries an
  extend digest \<open>L\<close>, its index is not the sentinel and is a register of both banks),
  whose device path resolves to a non-empty path \<open>p\<close> and whose image hash is computed
  as \<open>P\<close>: the pass goes on, \<open>p\<close> becomes the last EFI binary, the current bank folds
  \<open>L\<close> and the predicted bank folds \<open>P\<close> at the entry's index, and both banks are
  unchanged at every other index.\<close>

theorem bsa_resolved_fold:
  assumes "event_type ev = EFI_BOOT_SERVICES_APPLICATION"
    and "pcr_extend_value ev = Some L" and "pcr_idx ev \<noteq> VIRTUAL_PCR"
    and "parse_efi_bsa_event E (event_data ev) = Inr dp"
    and "device_path_to_unix_path E dp = Inr (Some p)" and "p \<noteq> []"
    and "hash_pecoff E (Some p) ''sha1'' = Inr P"
    and "this_pcrs s (pcr_idx ev) = Some t" and "next_pcrs s (pcr_idx ev) = Some n"
  shows "fst (process_event E a va w s ev) = Go
       \<and> last_efi_binary (snd (process_event E a va w s ev)) = Some p
       \<and> this_pcrs (snd (process_event E a va w s ev))
           = (this_pcrs s)(pcr_idx ev \<mapsto> sha1 E (t @ L))
       \<and> next_pcrs (snd (process_event E a va w s ev))
           = (next_pcrs s)(pcr_idx ev \<mapsto> sha1 E (n @ P))"
  using assms
  by (simp add: process_event_def bsa_block_def ipl_block_other_type fold_block_def
      extend_def extend_pcr_with_hash_def Let_def)

theorem bsa_resolved_fold_witness:
  "fst (process_event demo_env demo_args True [0] init_st entry_bsa) = Go
   \<and> last_efi_binary (snd (process_event demo_env demo_args True [0] init_st entry_bsa))
       = Some ''/boot/loader.efi''
   \<and> this_pcrs (snd (process_event demo_env demo_args True [0] init_st entry_bsa))
       = (this_pcrs init_st)(4 \<mapsto> toy_hash (replicate 20 0 @ replicate 20 0x44))
   \<and> next_pcrs (snd (process_event demo_env demo_args True [0] init_st entry_bsa))
       = (next_pcrs init_st)(4 \<mapsto> toy_hash (replicate 20 0 @ replicate 20 0x33))"
  using bsa_resolved_fold [of entry_bsa "replicate 20 0x44" demo_env "[1]" "''/boot/loader.efi''"
      "replicate 20 0x33" init_st "replicate 20 0" "replicate 20 0" demo_args True "[0]"]
  by (simp add: entry_bsa_def demo_env_def VIRTUAL_PCR_def init_empty_pcrs_apply)

text \<open>C5. An \<^verbatim>\<open>IPL\<close> entry on a requested register that passes the filter, when the
  loader predictor raises \<^verbatim>\<open>FileNotFoundError\<close> (environment not recognized): nothing
  is counted as an error, the pass goes on, and both banks fold the logged value at
  the entry's index; so if they agreed there before, they agree there afterwards.\<close>

theorem ipl_not_recognized_fold:
  assumes "event_type ev = IPL" and "pcr_idx ev \<in> set w"
    and "pcr_extend_value ev = Some L" and "pcr_idx ev \<noteq> VIRTUAL_PCR"
    and "loader_get_next_cmdline E (last_efi_binary s) = Inl FileNotFoundError"
    and "this_pcrs s (pcr_idx ev) = Some t" and "next_pcrs s (pcr_idx ev) = Some n"
  shows "fst (process_event E a va w s ev) = Go
       \<and> this_pcrs (snd (process_event E a va w s ev))
           = (this_pcrs s)(pcr_idx ev \<mapsto> sha1 E (t @ L))
       \<and> next_pcrs (snd (process_event E a va w s ev))
           = (next_pcrs s)(pcr_idx ev \<mapsto> sha1 E (n @ L))
       \<and> errors (snd (process_event E a va w s ev)) = errors s
       \<and> last_efi_binary (snd (process_event E a va w s ev)) = last_efi_binary s
       \<and> (t = n \<longrightarrow> this_pcrs (snd (process_event E a va w s ev)) (pcr_idx ev)
                    = next_pcrs (snd (process_event E a va w s ev)) (pcr_idx ev))"
  using assms
  by (simp add: process_event_def bsa_block_other_type ipl_block_def ipl_try_def fold_block_def
      extend_def extend_pcr_with_hash_def Let_def)

theorem ipl_not_recognized_fold_witness:
  "fst (process_event demo_env demo_args True [8] init_st entry_ipl) = Go
   \<and> this_pcrs (snd (process_event demo_env demo_args True [8] init_st entry_ipl)) 8
       = Some (toy_hash (replicate 20 0 @ replicate 20 0x55))
   \<and> next_pcrs (snd (process_event demo_env demo_args True [8] init_st entry_ipl)) 8
       = Some (toy_hash (replicate 20 0 @ replicate 20 0x55))"
  using ipl_not_recognized_fold [of entry_ipl "[8]" "replicate 20 0x55" demo_env init_st
      "replicate 20 0" "replicate 20 0" demo_args True]
  by (simp add: entry_ipl_def demo_env_def VIRTUAL_PCR_def init_empty_pcrs_apply)

text \<open>C7. At every point of the pass (after any list of entries, from any state): a
  register at which the two banks agreed at the start, and which no divergent entry
  processed so far has touched, holds the same value in the predicted bank as in the
  current bank. Divergent are only the entries that pass the filter and are an
  \<^verbatim>\<open>EFI_BOOT_SERVICES_APPLICATION\<close> entry with a resolved and rehashed path, or an
  \<^verbatim>\<open>IPL\<close> entry on a requested register with a successful command-line prediction;
  an entry that the pass skips, or that comes after the end of the pass, is never one.\<close>

theorem agree_unless_divergent:
  assumes "this_pcrs s i = next_pcrs s i"
    and "i \<notin> divergent_idxs E a va w s evs"
  shows "next_pcrs (snd (run_events E a va w s evs)) i
       = this_pcrs (snd (run_events E a va w s evs)) i"
  using run_events_agree [OF surjective_pairing assms] by simp

theorem agree_unless_divergent_witness:
  "next_pcrs (snd (run_events demo_env demo_args True [0] init_st [entry_A, entry_bsa])) 0
     = this_pcrs (snd (run_events demo_env demo_args True [0] init_st [entry_A, entry_bsa])) 0"
proof -
  have "0 \<notin> divergent_idxs demo_env demo_args True [0] init_st [entry_A, entry_bsa]"
    by (auto simp: divergent_def bsa_divergent_def ipl_divergent_def passes_filter_def
        entry_A_def entry_bsa_def split: prod.splits ctl.splits if_splits)
  then show ?thesis
    using agree_unless_divergent [of init_st 0 demo_env demo_args True "[0]"
        "[entry_A, entry_bsa]"]
    by simp
qed

text \<open>C10, as amended. When compare mode is selected: the process never returns
  normally (it exits or dies), no output file is opened and no line of the final table
  is printed. When the pass runs to the end of the log, the outcome is the same
  whatever the error tally of the pass is; and when the live reader delivers a value
  for every requested register (each in 0 to 23), the exit status is 1 if some live
  value differs from the computed current value and 0 otherwise. When the pass is
  ended before the end of the log, the run ends there, without any comparison: either
  by the strict-mode abort (exit status 1, and the run is not verbose) or by an
  uncaught exception.\<close>

theorem compare_exit_ignores_tally:
  assumes "compare a"
  shows "fst (main E a) \<noteq> Returned
       \<and> written (snd (main E a)) = None
       \<and> no_final_table (snd (main E a))
       \<and> (wanted_pcrs_of E a = Inr (va, w) \<longrightarrow>
          run_events E a va w init_st (enum_log_entries E (log_path a)) = (Go, s) \<longrightarrow>
            fst (main E a) = outcome_of (fst (compare_mode E w (s\<lparr>errors := e\<rparr>)))
          \<and> (read_current_pcrs E w = Inr real \<longrightarrow>
               (\<forall>i\<in>set w. 0 \<le> i \<and> i < 24 \<and> real i \<noteq> None) \<longrightarrow>
               fst (main E a) = Exited (if \<exists>i\<in>set w. real i \<noteq> this_pcrs s i then 1 else 0)))
       \<and> (wanted_pcrs_of E a = Inr (va, w) \<longrightarrow>
          run_events E a va w init_st (enum_log_entries E (log_path a)) = (c, s') \<longrightarrow>
          c \<noteq> Go \<longrightarrow>
            main E a = (outcome_of c, s')
          \<and> ((c = ExitWith 1 \<and> \<not> verbose a) \<or> (\<exists>x. c = Raise x)))"
proof (cases "wanted_pcrs_of E a")
  case (Inl x)
  then show ?thesis
    by (simp add: main_wanted_fails no_final_table_def)
next
  case (Inr vw)
  obtain va' w' where vw: "vw = (va', w')" by (cases vw)
  obtain c0 s0 where r: "run_events E a va' w' init_st (enum_log_entries E (log_path a)) = (c0, s0)"
    by (metis prod.exhaust)
  note ri = run_from_init [OF r]
  note mu = main_unfold [OF Inr [unfolded vw] r]
  obtain c1 s1 where cm: "compare_mode E w' s0 = (c1, s1)" by (metis prod.exhaust)
  note cf = compare_mode_facts [OF cm]
  have general: "fst (main E a) \<noteq> Returned \<and> written (snd (main E a)) = None
       \<and> no_final_table (snd (main E a))"
  proof (cases "c0 = Go")
    case True
    with mu assms cm cf ri(3,4) show ?thesis by (cases c1) auto
  next
    case False
    with mu ri(3,4,6) show ?thesis by auto
  qed
  have specific: "fst (main E a) = outcome_of (fst (compare_mode E w (s\<lparr>errors := e\<rparr>)))
          \<and> (read_current_pcrs E w = Inr real \<longrightarrow>
               (\<forall>i\<in>set w. 0 \<le> i \<and> i < 24 \<and> real i \<noteq> None) \<longrightarrow>
               fst (main E a) = Exited (if \<exists>i\<in>set w. real i \<noteq> this_pcrs s i then 1 else 0))"
    if h: "wanted_pcrs_of E a = Inr (va, w)"
      "run_events E a va w init_st (enum_log_entries E (log_path a)) = (Go, s)"
  proof -
    note m = main_unfold [OF h]
    note i = run_from_init [OF h(2)]
    have 1: "fst (main E a) = outcome_of (fst (compare_mode E w s))"
      using m assms by simp
    have 2: "fst (main E a) = Exited (if \<exists>i\<in>set w. real i \<noteq> this_pcrs s i then 1 else 0)"
      if "read_current_pcrs E w = Inr real" "\<forall>i\<in>set w. 0 \<le> i \<and> i < 24 \<and> real i \<noteq> None"
    proof -
      have "\<forall>i\<in>set w. real i \<noteq> None \<and> this_pcrs s i \<noteq> None"
        using that(2) i(1) by blast
      from compare_mode_exit [OF that(1) this] 1 show ?thesis by simp
    qed
    from 1 2 show ?thesis by (simp add: compare_mode_tally)
  qed
  have aborted: "main E a = (outcome_of c, s')
          \<and> ((c = ExitWith 1 \<and> \<not> verbose a) \<or> (\<exists>x. c = Raise x))"
    if h: "wanted_pcrs_of E a = Inr (va, w)"
      "run_events E a va w init_st (enum_log_entries E (log_path a)) = (c, s')"
      "c \<noteq> Go"
    using main_unfold [OF h(1,2)] run_from_init(6) [OF h(2)] h(3) by simp
  from general specific aborted show ?thesis by blast
qed


theorem compare_exit_ignores_tally_witness:
  "errors (snd (run_events (env_with_log [entry_unresolved]) args_compare_verbose False [0]
                  init_st [entry_unresolved])) = 1
   \<and> fst (main (env_with_log [entry_unresolved]) args_compare_verbose) = Exited 0
   \<and> written (snd (main (env_with_log [entry_unresolved]) args_compare_verbose)) = None
   \<and> no_final_table (snd (main (env_with_log [entry_unresolved]) args_compare_verbose))
   \<and> fst (main (env_with_log [entry_unresolved]) args_compare_strict) = Exited 1
   \<and> written (snd (main (env_with_log [entry_unresolved]) args_compare_strict)) = None"
proof -
  define E where "E = env_with_log [entry_unresolved]"
  define s1 where "s1 = emit NoLinuxPath
        ((emit (PrintException (OtherException ''no file path'')) init_st)\<lparr>errors := 1\<rparr>)"
  define s2 where "s2 = emit StderrUnusualBoot
        ((emit (PrintException (OtherException ''no file path'')) init_st)\<lparr>errors := 1\<rparr>)"
  have v: "verbose args_compare_verbose" "compare args_compare_verbose"
    by (simp_all add: args_compare_verbose_def)
  have v2: "\<not> verbose args_compare_strict" "compare args_compare_strict"
    by (simp_all add: args_compare_strict_def)
  have w: "wanted_pcrs_of E args_compare_verbose = Inr (False, [0])"
    unfolding E_def by (rule wanted_demo)
  have w2: "wanted_pcrs_of E args_compare_strict = Inr (False, [0])"
    unfolding E_def by (rule wanted_demo2)
  have "run_events E args_compare_verbose False [0] init_st [entry_unresolved] = (Go, s1)"
    by (simp add: unresolved_step_verbose v s1_def E_def)
  then have r: "run_events E args_compare_verbose False [0] init_st
      (enum_log_entries E (log_path args_compare_verbose)) = (Go, s1)"
    by (simp add: E_def)
  have "run_events E args_compare_strict False [0] init_st [entry_unresolved] = (ExitWith 1, s2)"
    by (simp add: unresolved_step_strict v2 s2_def E_def)
  then have r2: "run_events E args_compare_strict False [0] init_st
      (enum_log_entries E (log_path args_compare_strict)) = (ExitWith 1, s2)"
    by (simp add: E_def)
  have rd: "read_current_pcrs E [0] = Inr init_empty_pcrs" by (simp add: E_def)
  have al: "\<forall>i\<in>set [0]. 0 \<le> i \<and> i < 24 \<and> init_empty_pcrs i \<noteq> None"
    by (simp add: init_empty_pcrs_apply)
  have ne: "ExitWith 1 \<noteq> Go" by simp
  note th = compare_exit_ignores_tally [OF v(2), of E False "[0]" s1 0 init_empty_pcrs]
  from th w r rd al have "fst (main E args_compare_verbose) =
      Exited (if \<exists>i\<in>set [0]. init_empty_pcrs i \<noteq> this_pcrs s1 i then 1 else 0)"
    by blast
  then have 1: "fst (main E args_compare_verbose) = Exited 0" by (simp add: s1_def)
  have 2: "errors (snd (run_events E args_compare_verbose False [0] init_st
      [entry_unresolved])) = 1"
    using r by (simp add: E_def s1_def)
  from th have 3: "written (snd (main E args_compare_verbose)) = None
      \<and> no_final_table (snd (main E args_compare_verbose))" by blast
  note th2 = compare_exit_ignores_tally [OF v2(2), of E False "[0]" _ _ _ "ExitWith 1" s2]
  from th2 w2 r2 ne have "main E args_compare_strict = (outcome_of (ExitWith 1), s2)"
    by blast
  then have 4: "fst (main E args_compare_strict) = Exited 1" by simp
  from th2 have 5: "written (snd (main E args_compare_strict)) = None" by blast
  from 1 2 3 4 5 show ?thesis unfolding E_def by blast
qed

theorem compare_strict_abort_counterexample:
  "compare args_compare_strict
   \<and> wanted_pcrs_of (env_with_log [entry_unresolved]) args_compare_strict = Inr (False, [0])
   \<and> read_current_pcrs (env_with_log [entry_unresolved]) [0] = Inr init_empty_pcrs
   \<and> this_pcrs (snd (main (env_with_log [entry_unresolved]) args_compare_strict)) 0
       = init_empty_pcrs 0
   \<and> fst (main (env_with_log [entry_unresolved]) args_compare_strict) = Exited 1"
proof -
  define E where "E = env_with_log [entry_unresolved]"
  define s2 where "s2 = emit StderrUnusualBoot
        ((emit (PrintException (OtherException ''no file path'')) init_st)\<lparr>errors := 1\<rparr>)"
  have v2: "\<not> verbose args_compare_strict" "compare args_compare_strict"
    by (simp_all add: args_compare_strict_def)
  have w2: "wanted_pcrs_of E args_compare_strict = Inr (False, [0])"
    unfolding E_def by (rule wanted_demo2)
  have "run_events E args_compare_strict False [0] init_st [entry_unresolved] = (ExitWith 1, s2)"
    by (simp add: unresolved_step_strict v2 s2_def E_def)
  then have r2: "run_events E args_compare_strict False [0] init_st
      (enum_log_entries E (log_path args_compare_strict)) = (ExitWith 1, s2)"
    by (simp add: E_def)
  have m: "main E args_compare_strict = (Exited 1, s2)"
    using main_unfold [OF w2 r2] by simp
  have t: "this_pcrs s2 = init_empty_pcrs" by (simp add: s2_def)
  have rd: "read_current_pcrs E [0] = Inr init_empty_pcrs" by (simp add: E_def)
  from v2 w2 m t rd show ?thesis unfolding E_def by simp
qed

text \<open>C8, as amended. For a run that does not die of an uncaught exception: the pass
  either runs to the end of the log or is ended by the strict-mode abort (exit status
  1, and the run is not verbose). Otherwise, in compare mode the exit status is 1 when
  some live value differs from the computed current value and 0 when none does,
  whatever the error tally of the pass was; without compare mode it is 1 when the
  error tally is nonzero, whether or not an output file was requested, and 0 when the
  tally is zero. Whenever the exit status is not 0, no output file has been
  written.\<close>

theorem exit_status_cases:
  assumes "wanted_pcrs_of E a = Inr (va, w)"
    and "run_events E a va w init_st (enum_log_entries E (log_path a)) = (c, s)"
    and "\<forall>x. fst (main E a) \<noteq> Uncaught x"
  shows "(c = Go \<or> (c = ExitWith 1 \<and> \<not> verbose a))
       \<and> exit_status (fst (main E a)) =
          (if c \<noteq> Go then 1
           else if compare a then
             (if \<exists>real. read_current_pcrs E w = Inr real
                   \<and> (\<exists>i\<in>set w. real i \<noteq> this_pcrs s i) then 1 else 0)
           else if errors s \<noteq> 0 then 1 else 0)
       \<and> (exit_status (fst (main E a)) \<noteq> 0 \<longrightarrow> written (snd (main E a)) = None)"
proof -
  note mu = main_unfold [OF assms(1,2)]
  note ri = run_from_init [OF assms(2)]
  have c: "c = Go \<or> (c = ExitWith 1 \<and> \<not> verbose a)"
    using ri(6) mu assms(3) by auto
  have st: "exit_status (fst (main E a)) =
          (if c \<noteq> Go then 1
           else if compare a then
             (if \<exists>real. read_current_pcrs E w = Inr real
                   \<and> (\<exists>i\<in>set w. real i \<noteq> this_pcrs s i) then 1 else 0)
           else if errors s \<noteq> 0 then 1 else 0)"
  proof (cases "c = Go")
    case False
    with c mu show ?thesis by simp
  next
    case True
    show ?thesis
    proof (cases "compare a")
      case cmp: True
      with mu True have m: "fst (main E a) = outcome_of (fst (compare_mode E w s))" by simp
      have "\<forall>x. fst (compare_mode E w s) \<noteq> Raise x"
        using m assms(3) by (metis outcome_of.simps(4))
      from compare_mode_exit_general [OF this] obtain real where
        rd: "read_current_pcrs E w = Inr real" and
        ex: "fst (compare_mode E w s) =
           ExitWith (if \<exists>i\<in>set w. real i \<noteq> this_pcrs s i then 1 else 0)"
        by blast
      from m ex rd True cmp show ?thesis by auto
    next
      case ncmp: False
      with mu True have m: "fst (main E a) = outcome_of (fst (report_mode E a w s))" by simp
      have "\<forall>x. fst (report_mode E a w s) \<noteq> Raise x"
        using m assms(3) by (metis outcome_of.simps(4))
      from report_mode_exit [OF this] m True ncmp show ?thesis by simp
    qed
  qed
  have wr: "written (snd (main E a)) = None" if nz: "exit_status (fst (main E a)) \<noteq> 0"
  proof (cases "c = Go")
    case False
    with mu ri(3) show ?thesis by simp
  next
    case True
    show ?thesis
    proof (cases "compare a")
      case cmp: True
      with mu True have m: "snd (main E a) = snd (compare_mode E w s)" by simp
      from compare_mode_facts [OF surjective_pairing, of E w s] ri(3) m
      show ?thesis by simp
    next
      case ncmp: False
      with mu True have m: "snd (main E a) = snd (report_mode E a w s)" by simp
      from st nz True ncmp have "errors s \<noteq> 0" by (simp split: if_splits)
      from report_mode_tally_written [OF this, of E a w] ri(3) m show ?thesis by simp
    qed
  qed
  from c st wr show ?thesis by blast
qed

theorem exit_status_cases_witness:
  "exit_status (fst (main (env_with_log [entry_unresolved]) args_verbose)) = 1
   \<and> written (snd (main (env_with_log [entry_unresolved]) args_verbose)) = None"
proof -
  define E where "E = env_with_log [entry_unresolved]"
  define s1 where "s1 = emit NoLinuxPath
        ((emit (PrintException (OtherException ''no file path'')) init_st)\<lparr>errors := 1\<rparr>)"
  have v: "verbose args_verbose" "\<not> compare args_verbose" "output_arg args_verbose = None"
    by (simp_all add: args_verbose_def)
  have w: "wanted_pcrs_of E args_verbose = Inr (False, [0])"
    unfolding E_def by (rule wanted_demo)
  have "run_events E args_verbose False [0] init_st [entry_unresolved] = (Go, s1)"
    by (simp add: unresolved_step_verbose v s1_def E_def)
  then have r: "run_events E args_verbose False [0] init_st
      (enum_log_entries E (log_path args_verbose)) = (Go, s1)"
    by (simp add: E_def)
  have t: "this_pcrs s1 = init_empty_pcrs" "next_pcrs s1 = init_empty_pcrs" "errors s1 = 1"
    by (simp_all add: s1_def)
  have i: "init_empty_pcrs 0 = Some (replicate 20 0)" by (simp add: init_empty_pcrs_apply)
  have rm: "fst (report_mode E args_verbose [0] s1) = ExitWith 1"
    by (simp add: report_mode_def v t i)
  have m: "fst (main E args_verbose) = Exited 1"
    using main_unfold [OF w r] v rm by simp
  then have nu: "\<forall>x. fst (main E args_verbose) \<noteq> Uncaught x" by simp
  note th = exit_status_cases [OF w r nu]
  from th v t have 1: "exit_status (fst (main E args_verbose)) = 1" by simp
  from th 1 have 2: "written (snd (main E args_verbose)) = None" by simp
  from 1 2 show ?thesis unfolding E_def by blast
qed

theorem tally_with_output_counterexample:
  "\<not> compare args_verbose_output \<and> verbose args_verbose_output
   \<and> output_arg args_verbose_output = Some ''pcrs.bin''
   \<and> run_events (env_with_log [entry_unresolved]) args_verbose_output False [0] init_st
         (enum_log_entries (env_with_log [entry_unresolved]) (log_path args_verbose_output))
       = (Go, emit NoLinuxPath
            ((emit (PrintException (OtherException ''no file path'')) init_st)\<lparr>errors := 1\<rparr>))
   \<and> fst (main (env_with_log [entry_unresolved]) args_verbose_output) = Exited 1
   \<and> written (snd (main (env_with_log [entry_unresolved]) args_verbose_output)) = None"
proof -
  define E where "E = env_with_log [entry_unresolved]"
  define s1 where "s1 = emit NoLinuxPath
        ((emit (PrintException (OtherException ''no file path'')) init_st)\<lparr>errors := 1\<rparr>)"
  have v: "verbose args_verbose_output" "\<not> compare args_verbose_output"
    "output_arg args_verbose_output = Some ''pcrs.bin''"
    by (simp_all add: args_verbose_output_def)
  have w: "wanted_pcrs_of E args_verbose_output = Inr (False, [0])"
    unfolding E_def by (rule wanted_demo2)
  have "run_events E args_verbose_output False [0] init_st [entry_unresolved] = (Go, s1)"
    by (simp add: unresolved_step_verbose v s1_def E_def)
  then have r: "run_events E args_verbose_output False [0] init_st
      (enum_log_entries E (log_path args_verbose_output)) = (Go, s1)"
    by (simp add: E_def)
  have t: "this_pcrs s1 = init_empty_pcrs" "next_pcrs s1 = init_empty_pcrs" "errors s1 = 1"
    "written s1 = None"
    by (simp_all add: s1_def)
  have i: "init_empty_pcrs 0 = Some (replicate 20 0)" by (simp add: init_empty_pcrs_apply)
  have rm: "fst (report_mode E args_verbose_output [0] s1) = ExitWith 1"
    "written (snd (report_mode E args_verbose_output [0] s1)) = None"
    by (simp_all add: report_mode_def v t i)
  have m: "fst (main E args_verbose_output) = Exited 1"
    "written (snd (main E args_verbose_output)) = None"
    using main_unfold [OF w r] v rm by simp_all
  from v r m show ?thesis unfolding E_def s1_def by blast
qed

text \<open>C9, as amended. In output mode (no compare mode, the pass ran to the end with a
  zero error tally, the output file could be opened, every requested index is in 0 to
  23): the run returns normally and the bytes written are exactly the predicted digests
  of the requested indices, concatenated in the order in which the indices were
  requested, with nothing before, between or after them. The requested indices are
  the fields of \<^verbatim>\<open>--pcr-list\<close> read as integers, one index for each field and in the
  order of the fields, where the fields are the comma-free pieces that give the list
  back when joined by commas; when no list is given they are 0 to 23 in ascending
  order.\<close>

theorem output_in_requested_order:
  assumes "wanted_pcrs_of E a = Inr (va, w)"
    and "run_events E a va w init_st (enum_log_entries E (log_path a)) = (Go, s)"
    and "\<not> compare a" and "errors s = 0"
    and "output_arg a = Some path" and "path \<noteq> []" and "open_wb E path = None"
    and "\<forall>i\<in>set w. 0 \<le> i \<and> i < 24"
  shows "fst (main E a) = Returned
       \<and> written (snd (main E a)) = Some (path, concat (map (\<lambda>i. the (next_pcrs s i)) w))
       \<and> (if truthy (pcr_list a)
          then map (py_int E) (split_comma (the (pcr_list a))) = map Inr w
             \<and> join_comma (split_comma (the (pcr_list a))) = the (pcr_list a)
             \<and> (\<forall>f\<in>set (split_comma (the (pcr_list a))). CHR '','' \<notin> set f)
          else w = map int [0..<24])"
proof -
  note mu = main_unfold [OF assms(1,2)]
  note ri = run_from_init [OF assms(2)]
  have "\<forall>i\<in>set w. this_pcrs s i \<noteq> None \<and> next_pcrs s i \<noteq> None"
    using assms(8) ri(1,2) by blast
  from report_mode_output [OF this assms(4-7)] mu assms(3)
  have "fst (main E a) = Returned
       \<and> written (snd (main E a)) = Some (path, concat (map (\<lambda>i. the (next_pcrs s i)) w))"
    by simp
  moreover have "if truthy (pcr_list a)
          then map (py_int E) (split_comma (the (pcr_list a))) = map Inr w
             \<and> join_comma (split_comma (the (pcr_list a))) = the (pcr_list a)
             \<and> (\<forall>f\<in>set (split_comma (the (pcr_list a))). CHR '','' \<notin> set f)
          else w = map int [0..<24]"
    using wanted_pcr_list [OF assms(1)] join_split_comma [of "the (pcr_list a)"]
      split_comma_fields [of "the (pcr_list a)"]
    by (simp split: if_splits)
  ultimately show ?thesis by blast
qed

theorem output_in_requested_order_witness:
  "fst (main (env_with_log []) args_output) = Returned
   \<and> written (snd (main (env_with_log []) args_output))
       = Some (''pcrs.bin'', replicate 20 0xFF @ replicate 20 0)
   \<and> map (py_int (env_with_log [])) (split_comma (the (pcr_list args_output)))
       = map Inr [17, 0]"
proof -
  have r: "run_events (env_with_log []) args_output False [17, 0] init_st
      (enum_log_entries (env_with_log []) (log_path args_output)) = (Go, init_st)"
    by simp
  have "\<forall>i\<in>set [17, 0::int]. 0 \<le> i \<and> i < 24" by simp
  from output_in_requested_order [OF wanted_demo(3) r args_output_simps(1) _
      args_output_simps(3) _ _ this]
  show ?thesis by (simp add: init_empty_pcrs_apply args_output_def)
qed

theorem output_ascending_counterexample:
  "wanted_pcrs_of (env_with_log []) args_output = Inr (False, [17, 0])
   \<and> written (snd (main (env_with_log []) args_output))
       = Some (''pcrs.bin'', replicate 20 0xFF @ replicate 20 0)
   \<and> the (next_pcrs (snd (main (env_with_log []) args_output)) 0) = replicate 20 0
   \<and> the (next_pcrs (snd (main (env_with_log []) args_output)) 17) = replicate 20 0xFF
   \<and> written (snd (main (env_with_log []) args_output))
       \<noteq> Some (''pcrs.bin'', the (next_pcrs (snd (main (env_with_log []) args_output)) 0)
                             @ the (next_pcrs (snd (main (env_with_log []) args_output)) 17))"
proof -
  define E :: "bytes env" where "E = env_with_log []"
  have w: "wanted_pcrs_of E args_output = Inr (False, [17, 0])"
    unfolding E_def by (rule wanted_demo)
  have r: "run_events E args_output False [17, 0] init_st
      (enum_log_entries E (log_path args_output)) = (Go, init_st)"
    by (simp add: E_def)
  have i: "init_empty_pcrs 0 = Some (replicate 20 0)" "init_empty_pcrs 17 = Some (replicate 20 0xFF)"
    by (simp_all add: init_empty_pcrs_apply)
  have rm: "report_mode E args_output [17, 0] init_st =
      (Go, init_st\<lparr>written := Some (''pcrs.bin'', replicate 20 0xFF @ replicate 20 0)\<rparr>)"
    by (simp add: report_mode_def args_output_simps i E_def)
  have m: "main E args_output =
      (Returned, init_st\<lparr>written := Some (''pcrs.bin'', replicate 20 0xFF @ replicate 20 0)\<rparr>)"
    using main_unfold [OF w r] rm by (simp add: args_output_simps)
  have ne: "replicate 20 (0xFF::byte) @ replicate 20 0 \<noteq> replicate 20 0 @ replicate 20 0xFF"
  proof
    assume "replicate 20 (0xFF::byte) @ replicate 20 0 = replicate 20 0 @ replicate 20 0xFF"
    then have "hd (replicate 20 (0xFF::byte) @ replicate 20 0)
        = hd (replicate 20 0 @ replicate 20 (0xFF::byte))"
      by (rule arg_cong)
    then show False by simp
  qed
  from w m i ne show ?thesis unfolding E_def by simp
qed




text \<open>C1, as amended. The extend statement replaces the digest at an index of a bank by
  \<open>H(old || d)\<close> and leaves every other index as it is. While an entry of the log is
  processed, each bank either stays as it is or undergoes exactly one extend at the
  entry's index, in both programs; in \<^verbatim>\<open>src/tpm_futurepcr/__init__.py\<close> nothing after
  the pass changes the banks. In \<^verbatim>\<open>src/lib/__init__.py\<close> the banks at the end of the
  run are those at the end of the pass, except in one case: when the pass ran to the
  end of the log and left register 8 of the current bank at 20 zero bytes, and the
  live reader delivers a value, register 8 of both banks holds that live value and
  every other register is as the pass left it. Consequently, when the log consists of
  two entries on register 0 with extend values \<open>A\<close> and \<open>B\<close> that are folded and not
  divergent, both banks end with \<open>H(H(zeros || A) || B)\<close> at register 0, in both
  programs.\<close>

theorem extend_chain:
  "(p i = Some old \<longrightarrow> extend H p i d = Inr (p(i \<mapsto> H (old @ d))))
   \<and> (this_pcrs (snd (process_event E a va w s ev)) = this_pcrs s
      \<or> one_extend (sha1 E) (this_pcrs s) (pcr_idx ev)
           (this_pcrs (snd (process_event E a va w s ev))))
   \<and> (next_pcrs (snd (process_event E a va w s ev)) = next_pcrs s
      \<or> one_extend (sha1 E) (next_pcrs s) (pcr_idx ev)
           (next_pcrs (snd (process_event E a va w s ev))))
   \<and> (wanted_pcrs_of E a = Inr (va, w) \<longrightarrow>
        this_pcrs (snd (main E a))
          = this_pcrs (snd (run_events E a va w init_st (enum_log_entries E (log_path a))))
      \<and> next_pcrs (snd (main E a))
          = next_pcrs (snd (run_events E a va w init_st (enum_log_entries E (log_path a)))))
   \<and> (this_pcrs (snd (lib_process_event E s ev)) = this_pcrs s
      \<or> one_extend (sha1 E) (this_pcrs s) (pcr_idx ev) (this_pcrs (snd (lib_process_event E s ev))))
   \<and> (next_pcrs (snd (lib_process_event E s ev)) = next_pcrs s
      \<or> one_extend (sha1 E) (next_pcrs s) (pcr_idx ev) (next_pcrs (snd (lib_process_event E s ev))))
   \<and> this_pcrs (snd (lib_main E)) =
       (if fst (lib_run_events E lib_init_st (enum_log_entries E None)) = Go
           \<and> this_pcrs (snd (lib_run_events E lib_init_st (enum_log_entries E None))) 8
               = Some (replicate 20 0)
        then (case read_current_pcr E 8 of
                Inl x \<Rightarrow> this_pcrs (snd (lib_run_events E lib_init_st (enum_log_entries E None)))
              | Inr live \<Rightarrow>
                  (this_pcrs (snd (lib_run_events E lib_init_st (enum_log_entries E None))))
                    (8 \<mapsto> live))
        else this_pcrs (snd (lib_run_events E lib_init_st (enum_log_entries E None))))
   \<and> next_pcrs (snd (lib_main E)) =
       (if fst (lib_run_events E lib_init_st (enum_log_entries E None)) = Go
           \<and> this_pcrs (snd (lib_run_events E lib_init_st (enum_log_entries E None))) 8
               = Some (replicate 20 0)
        then (case read_current_pcr E 8 of
                Inl x \<Rightarrow> next_pcrs (snd (lib_run_events E lib_init_st (enum_log_entries E None)))
              | Inr live \<Rightarrow>
                  (next_pcrs (snd (lib_run_events E lib_init_st (enum_log_entries E None))))
                    (8 \<mapsto> live))
        else next_pcrs (snd (lib_run_events E lib_init_st (enum_log_entries E None))))
   \<and> (wanted_pcrs_of E a = Inr (va, w) \<longrightarrow> enum_log_entries E (log_path a) = [e1, e2] \<longrightarrow>
      pcr_idx e1 = 0 \<longrightarrow> pcr_idx e2 = 0 \<longrightarrow>
      pcr_extend_value e1 = Some A \<longrightarrow> pcr_extend_value e2 = Some B \<longrightarrow>
      non_divergent_fold E w init_st e1 \<longrightarrow> non_divergent_fold E w init_st e2 \<longrightarrow>
        this_pcrs (snd (main E a)) 0 = Some (sha1 E (sha1 E (replicate 20 0 @ A) @ B))
      \<and> next_pcrs (snd (main E a)) 0 = Some (sha1 E (sha1 E (replicate 20 0 @ A) @ B)))
   \<and> (enum_log_entries E None = [e1, e2] \<longrightarrow>
      pcr_idx e1 = 0 \<longrightarrow> pcr_idx e2 = 0 \<longrightarrow>
      pcr_extend_value e1 = Some A \<longrightarrow> pcr_extend_value e2 = Some B \<longrightarrow>
      event_type e1 \<noteq> EFI_BOOT_SERVICES_APPLICATION \<longrightarrow>
      event_type e2 \<noteq> EFI_BOOT_SERVICES_APPLICATION \<longrightarrow>
        this_pcrs (snd (lib_main E)) 0 = Some (sha1 E (sha1 E (replicate 20 0 @ A) @ B))
      \<and> next_pcrs (snd (lib_main E)) 0 = Some (sha1 E (sha1 E (replicate 20 0 @ A) @ B)))"
proof -
  have 1: "p i = Some old \<longrightarrow> extend H p i d = Inr (p(i \<mapsto> H (old @ d)))"
    by (simp add: extend_def extend_pcr_with_hash_def)
  note 2 = process_event_step [of E a va w s ev]
  have 3: "wanted_pcrs_of E a = Inr (va, w) \<longrightarrow>
        this_pcrs (snd (main E a))
          = this_pcrs (snd (run_events E a va w init_st (enum_log_entries E (log_path a))))
      \<and> next_pcrs (snd (main E a))
          = next_pcrs (snd (run_events E a va w init_st (enum_log_entries E (log_path a))))"
    using main_pcrs [of E a va w] by blast
  note 4 = lib_process_event_step [of E s ev]
  note 5 = lib_main_banks [of E]
  have 6: "wanted_pcrs_of E a = Inr (va, w) \<longrightarrow> enum_log_entries E (log_path a) = [e1, e2] \<longrightarrow>
      pcr_idx e1 = 0 \<longrightarrow> pcr_idx e2 = 0 \<longrightarrow>
      pcr_extend_value e1 = Some A \<longrightarrow> pcr_extend_value e2 = Some B \<longrightarrow>
      non_divergent_fold E w init_st e1 \<longrightarrow> non_divergent_fold E w init_st e2 \<longrightarrow>
        this_pcrs (snd (main E a)) 0 = Some (sha1 E (sha1 E (replicate 20 0 @ A) @ B))
      \<and> next_pcrs (snd (main E a)) 0 = Some (sha1 E (sha1 E (replicate 20 0 @ A) @ B))"
    using main_chain [of E a va w e1 e2 A B] by blast
  have 7: "enum_log_entries E None = [e1, e2] \<longrightarrow>
      pcr_idx e1 = 0 \<longrightarrow> pcr_idx e2 = 0 \<longrightarrow>
      pcr_extend_value e1 = Some A \<longrightarrow> pcr_extend_value e2 = Some B \<longrightarrow>
      event_type e1 \<noteq> EFI_BOOT_SERVICES_APPLICATION \<longrightarrow>
      event_type e2 \<noteq> EFI_BOOT_SERVICES_APPLICATION \<longrightarrow>
        this_pcrs (snd (lib_main E)) 0 = Some (sha1 E (sha1 E (replicate 20 0 @ A) @ B))
      \<and> next_pcrs (snd (lib_main E)) 0 = Some (sha1 E (sha1 E (replicate 20 0 @ A) @ B))"
    using lib_main_chain [of E e1 e2 A B] by blast
  from 1 2 3 4 5 6 7 show ?thesis by blast
qed

theorem extend_chain_witness:
  "this_pcrs (snd (main (env_with_log [entry_A, entry_B]) demo_args)) 0
     = Some (toy_hash (toy_hash (replicate 20 0 @ replicate 20 0x11) @ replicate 20 0x22))
   \<and> next_pcrs (snd (main (env_with_log [entry_A, entry_B]) demo_args)) 0
     = Some (toy_hash (toy_hash (replicate 20 0 @ replicate 20 0x11) @ replicate 20 0x22))
   \<and> this_pcrs (snd (lib_main (env_with_log [entry_A, entry_B]))) 0
     = Some (toy_hash (toy_hash (replicate 20 0 @ replicate 20 0x11) @ replicate 20 0x22))
   \<and> next_pcrs (snd (lib_main (env_with_log [entry_A, entry_B]))) 0
     = Some (toy_hash (toy_hash (replicate 20 0 @ replicate 20 0x11) @ replicate 20 0x22))
   \<and> this_pcrs (snd (lib_main (env_with_log [entry_A, entry_B]))) 8
     = Some (replicate 20 0xAB)
   \<and> this_pcrs (snd (lib_main (env_with_log [entry_ipl])))
     = init_empty_pcrs(8 \<mapsto> toy_hash (replicate 20 0 @ replicate 20 0x55))
   \<and> next_pcrs (snd (lib_main (env_with_log [entry_ipl])))
     = init_empty_pcrs(8 \<mapsto> toy_hash (replicate 20 0 @ replicate 20 0x55))"
proof -
  define E where "E = env_with_log [entry_A, entry_B]"
  have h: "wanted_pcrs_of E demo_args = Inr (True, map int [0..<24])"
    "enum_log_entries E (log_path demo_args) = [entry_A, entry_B]"
    "enum_log_entries E None = [entry_A, entry_B]"
    "pcr_idx entry_A = 0" "pcr_idx entry_B = 0"
    "pcr_extend_value entry_A = Some (replicate 20 0x11)"
    "pcr_extend_value entry_B = Some (replicate 20 0x22)"
    "non_divergent_fold E (map int [0..<24]) init_st entry_A"
    "non_divergent_fold E (map int [0..<24]) init_st entry_B"
    "event_type entry_A \<noteq> EFI_BOOT_SERVICES_APPLICATION"
    "event_type entry_B \<noteq> EFI_BOOT_SERVICES_APPLICATION"
    by (simp_all add: demo_args_simps E_def entry_A_def entry_B_def non_divergent_fold_def
        VIRTUAL_PCR_def)
  have sh: "sha1 E = toy_hash" by (simp add: E_def)
  note th = extend_chain [of _ _ _ _ _ E demo_args True "map int [0..<24]" _ _
      entry_A entry_B "replicate 20 0x11" "replicate 20 0x22"]
  from th h have "this_pcrs (snd (main E demo_args)) 0
       = Some (sha1 E (sha1 E (replicate 20 0 @ replicate 20 0x11) @ replicate 20 0x22))
     \<and> next_pcrs (snd (main E demo_args)) 0
       = Some (sha1 E (sha1 E (replicate 20 0 @ replicate 20 0x11) @ replicate 20 0x22))
     \<and> this_pcrs (snd (lib_main E)) 0
       = Some (sha1 E (sha1 E (replicate 20 0 @ replicate 20 0x11) @ replicate 20 0x22))
     \<and> next_pcrs (snd (lib_main E)) 0
       = Some (sha1 E (sha1 E (replicate 20 0 @ replicate 20 0x11) @ replicate 20 0x22))"
    by blast
  then have chain: "this_pcrs (snd (main E demo_args)) 0
       = Some (toy_hash (toy_hash (replicate 20 0 @ replicate 20 0x11) @ replicate 20 0x22))
     \<and> next_pcrs (snd (main E demo_args)) 0
       = Some (toy_hash (toy_hash (replicate 20 0 @ replicate 20 0x11) @ replicate 20 0x22))
     \<and> this_pcrs (snd (lib_main E)) 0
       = Some (toy_hash (toy_hash (replicate 20 0 @ replicate 20 0x11) @ replicate 20 0x22))
     \<and> next_pcrs (snd (lib_main E)) 0
       = Some (toy_hash (toy_hash (replicate 20 0 @ replicate 20 0x11) @ replicate 20 0x22))"
    unfolding sh .
  define sA where "sA = snd (lib_process_event E lib_init_st entry_A)"
  have iA: "this_pcrs lib_init_st (pcr_idx entry_A) = Some (replicate 20 0)"
    "next_pcrs lib_init_st (pcr_idx entry_A) = Some (replicate 20 0)"
    by (simp_all add: h(4) lib_init_st_pcrs init_empty_pcrs_apply)
  note stA = lib_plain_step [OF h(10) h(6) iA, of E, folded sA_def]
  have pA: "lib_process_event E lib_init_st entry_A = (Go, sA)"
    using stA(1) by (simp add: sA_def prod_eq_iff)
  have iB: "this_pcrs sA (pcr_idx entry_B) = Some (sha1 E (replicate 20 0 @ replicate 20 0x11))"
    "next_pcrs sA (pcr_idx entry_B) = Some (sha1 E (replicate 20 0 @ replicate 20 0x11))"
    using stA(2,3) h(4,5) by simp_all
  define sB where "sB = snd (lib_process_event E sA entry_B)"
  note stB = lib_plain_step [OF h(11) h(7) iB, of E, folded sB_def]
  have pB: "lib_process_event E sA entry_B = (Go, sB)"
    using stB(1) by (simp add: sB_def prod_eq_iff)
  have rAB: "lib_run_events E lib_init_st (enum_log_entries E None) = (Go, sB)"
    using h(3) pA pB by simp
  have z8: "this_pcrs sB 8 = Some (replicate 20 0)"
    using stB(2) stA(2) h(4,5) by (simp add: lib_init_st_pcrs init_empty_pcrs_apply)
  have rdE: "read_current_pcr E 8 = Inr (replicate 20 0xAB)" by (simp add: E_def)
  from th have "this_pcrs (snd (lib_main E)) =
       (if fst (lib_run_events E lib_init_st (enum_log_entries E None)) = Go
           \<and> this_pcrs (snd (lib_run_events E lib_init_st (enum_log_entries E None))) 8
               = Some (replicate 20 0)
        then (case read_current_pcr E 8 of
                Inl x \<Rightarrow> this_pcrs (snd (lib_run_events E lib_init_st (enum_log_entries E None)))
              | Inr live \<Rightarrow>
                  (this_pcrs (snd (lib_run_events E lib_init_st (enum_log_entries E None))))
                    (8 \<mapsto> live))
        else this_pcrs (snd (lib_run_events E lib_init_st (enum_log_entries E None))))"
    by blast
  then have patched: "this_pcrs (snd (lib_main E)) 8 = Some (replicate 20 0xAB)"
    unfolding rAB fst_conv snd_conv using z8 rdE by simp
  define F where "F = env_with_log [entry_ipl]"
  have g: "enum_log_entries F None = [entry_ipl]" "pcr_idx entry_ipl = 8"
    "pcr_extend_value entry_ipl = Some (replicate 20 0x55)"
    "event_type entry_ipl \<noteq> EFI_BOOT_SERVICES_APPLICATION"
    "sha1 F = toy_hash" "read_current_pcr F 8 = Inr (replicate 20 0xAB)"
    by (simp_all add: F_def entry_ipl_def)
  have i8: "this_pcrs lib_init_st (pcr_idx entry_ipl) = Some (replicate 20 0)"
    "next_pcrs lib_init_st (pcr_idx entry_ipl) = Some (replicate 20 0)"
    by (simp_all add: g(2) lib_init_st_pcrs init_empty_pcrs_apply)
  define sI where "sI = snd (lib_process_event F lib_init_st entry_ipl)"
  note stI = lib_plain_step [OF g(4) g(3) i8, of F, folded sI_def]
  have pI: "lib_process_event F lib_init_st entry_ipl = (Go, sI)"
    using stI(1) by (simp add: sI_def prod_eq_iff)
  have rI: "lib_run_events F lib_init_st (enum_log_entries F None) = (Go, sI)"
    using g(1) pI by simp
  have bI: "this_pcrs sI = init_empty_pcrs(8 \<mapsto> toy_hash (replicate 20 0 @ replicate 20 0x55))"
    "next_pcrs sI = init_empty_pcrs(8 \<mapsto> toy_hash (replicate 20 0 @ replicate 20 0x55))"
    using stI(2,3) g(2,5) by (simp_all add: lib_init_st_pcrs)
  have nz: "this_pcrs sI 8 \<noteq> Some (replicate 20 0)"
    unfolding bI by (simp add: toy_hash_pcr8)
  note th2 = extend_chain [of _ _ _ _ _ F]
  from th2 have "this_pcrs (snd (lib_main F)) =
       (if fst (lib_run_events F lib_init_st (enum_log_entries F None)) = Go
           \<and> this_pcrs (snd (lib_run_events F lib_init_st (enum_log_entries F None))) 8
               = Some (replicate 20 0)
        then (case read_current_pcr F 8 of
                Inl x \<Rightarrow> this_pcrs (snd (lib_run_events F lib_init_st (enum_log_entries F None)))
              | Inr live \<Rightarrow>
                  (this_pcrs (snd (lib_run_events F lib_init_st (enum_log_entries F None))))
                    (8 \<mapsto> live))
        else this_pcrs (snd (lib_run_events F lib_init_st (enum_log_entries F None))))
     \<and> next_pcrs (snd (lib_main F)) =
       (if fst (lib_run_events F lib_init_st (enum_log_entries F None)) = Go
           \<and> this_pcrs (snd (lib_run_events F lib_init_st (enum_log_entries F None))) 8
               = Some (replicate 20 0)
        then (case read_current_pcr F 8 of
                Inl x \<Rightarrow> next_pcrs (snd (lib_run_events F lib_init_st (enum_log_entries F None)))
              | Inr live \<Rightarrow>
                  (next_pcrs (snd (lib_run_events F lib_init_st (enum_log_entries F None))))
                    (8 \<mapsto> live))
        else next_pcrs (snd (lib_run_events F lib_init_st (enum_log_entries F None))))"
    by blast
  then have kept: "this_pcrs (snd (lib_main F)) = this_pcrs sI
      \<and> next_pcrs (snd (lib_main F)) = next_pcrs sI"
    unfolding rI fst_conv snd_conv using nz by simp
  from chain patched kept bI show ?thesis unfolding E_def F_def by simp
qed

theorem pcr8_patch_counterexample:
  "enum_log_entries (env_with_log []) None = []
   \<and> this_pcrs lib_init_st 8 = Some (replicate 20 0)
   \<and> this_pcrs (snd (lib_main (env_with_log []))) 8 = Some (replicate 20 0xAB)
   \<and> next_pcrs (snd (lib_main (env_with_log []))) 8 = Some (replicate 20 0xAB)"
proof -
  have 1: "enum_log_entries (env_with_log []) None = []" by simp
  have 2: "read_current_pcr (env_with_log []) 8 = Inr (replicate 20 0xAB)" by simp
  have 3: "this_pcrs lib_init_st 8 = Some (replicate 20 0)"
    by (simp add: lib_init_st_pcrs init_empty_pcrs_apply)
  from lib_main_empty_log [OF 1 2] 1 3 show ?thesis by blast
qed

end
